theory Spec2Isabelle
  imports Main "HOL-Library.Word"
begin

section \<open>Data model\<close>

text \<open>
  The session and transport layer of the storage client: package \<open>base\<close>
  (\<open>RestClient\<close>: \<open>Call\<close>, \<open>BaseCall\<close>, \<open>GetRequest\<close>, \<open>Login\<close>, \<open>loginCall\<close>,
  \<open>setDataFromRespData\<close>, \<open>Logout\<close>, \<open>ReLogin\<close>) and package \<open>client\<close> of oceanstor
  (\<open>OceanstorClient\<close>: \<open>SafeCall\<close>, \<open>SafeBaseCall\<close>, \<open>safeDoCall\<close>).

  A Go \<open>error\<close> is modelled by its message (the code itself classifies errors by
  \<open>err.Error()\<close>); \<open>None\<close> is the nil error.
\<close>

type_synonym error = string

text \<open>A decoded JSON value, as \<open>encoding/json\<close> stores it in an \<open>interface{}\<close>.
  Numbers are kept as integers.\<close>

datatype jvalue =
    JNull
  | JBool bool
  | JNum int
  | JStr string
  | JArr "jvalue list"
  | JObj "(string \<times> jvalue) list"

text \<open>The dynamic type name that \<open>fmt\<close> prints for \<open>%T\<close>.\<close>

fun go_type :: "jvalue \<Rightarrow> string" where
  "go_type JNull = ''<nil>''"
| "go_type (JBool _) = ''bool''"
| "go_type (JNum _) = ''float64''"
| "go_type (JStr _) = ''string''"
| "go_type (JArr _) = ''[]interface {}''"
| "go_type (JObj _) = ''map[string]interface {}''"

text \<open>\<open>Response\<close>: the envelope. \<open>Error\<close> is a \<open>map[string]interface{}\<close>, only ever
  indexed, so the nil map and the empty map are both the empty association list;
  indexing a missing key gives the nil interface, here \<open>None\<close>.\<close>

record Response =
  Error :: "(string \<times> jvalue) list"
  Data :: jvalue

definition Response_zero :: Response where
  "Response_zero = \<lparr>Error = [], Data = JNull\<rparr>"

definition index_map :: "(string \<times> jvalue) list \<Rightarrow> string \<Rightarrow> jvalue option" where
  "index_map m k = map_of m k"

text \<open>An \<open>http.Request\<close> as far as the client builds it. \<open>Header.Set\<close> replaces the
  values stored under the key (the canonical spelling of header keys is not modelled).\<close>

record request =
  Method :: string
  URL :: string
  Header :: "(string \<times> string) list"
  Body :: "string option"

definition Header_Set :: "string \<Rightarrow> string \<Rightarrow> request \<Rightarrow> request" where
  "Header_Set k v req = req\<lparr>Header := (k, v) # filter (\<lambda>kv. fst kv \<noteq> k) (Header req)\<rparr>"

definition Header_Get :: "request \<Rightarrow> string \<Rightarrow> string option" where
  "Header_Get req k = map_of (Header req) k"

text \<open>A counting permit (\<open>utils.Semaphore\<close>) is an object: \<open>sem_id\<close> is its identity,
  \<open>permits\<close> its capacity. Its in-flight count is what the trace records: the
  \<open>Acquire\<close> events on it that no \<open>Release\<close> has matched yet. Waiting for a free slot is
  not modelled: a run of the model is a run in which every \<open>Acquire\<close> was granted.\<close>

record semaphore =
  sem_id :: nat
  permits :: nat

text \<open>What \<open>Client.Do\<close>, \<open>ReadAll\<close> and \<open>json.Unmarshal\<close> make of one exchange:
  the step that fails, with its error (and the body that did not decode), or the
  decoded envelope.\<close>

datatype http_outcome =
    DoFails error
  | ReadFails error
  | UnmarshalFails string error
  | Decodes Response

text \<open>The observable steps of a run, in order: permits taken and given back, requests
  handed to the HTTP client (with the client handle and what came back), permits
  created in the registry, the backend-status sink being told, and the log lines of
  \<open>loginCall\<close> (\<open>try to login\<close>, \<open>login ... error\<close>, \<open>login ... error due to connection
  failure\<close>).\<close>

datatype event =
    Acquire semaphore
  | Release semaphore
  | Sent nat request http_outcome
  | NewSemaphore string semaphore
  | SetOnlineStatus string bool
  | TryLogin string
  | LoginError string
  | LoginConnFailure string

record AuthInfo =
  auth_User :: string
  auth_Password :: string
  auth_Scope :: string

text \<open>
  Everything the code uses that lives outside the source files at hand: constants of
  package \<open>base\<close>, helpers of \<open>utils\<close> and \<open>pkgUtils\<close>, and the Go libraries. They are
  parameters. The ones that read the outside world (the network, the secret store,
  the backend-status sink) are given the trace so far, so their answers may change
  from one call to the next.
\<close>

record externals =
  Unconnected :: string
  UninitializedStorage :: string
  MaxStorageThreads :: nat
  DefaultVStore :: string
  DefaultVStoreID :: string
  WrongPasswordErrorCodes :: "int list"
  AccountBeenLocked :: "int list"
  IPLockErrorCode :: int
  json_Marshal :: "(string \<times> jvalue) list \<Rightarrow> error + string"
  http_NewRequest :: "string \<Rightarrow> string \<Rightarrow> error option"
  http_Do :: "event list \<Rightarrow> nat \<Rightarrow> request \<Rightarrow> http_outcome"
  NewHTTPClientByBackendID :: "event list \<Rightarrow> string \<Rightarrow> nat option \<times> error option"
  GetAuthInfoFromBackendID :: "event list \<Rightarrow> string \<Rightarrow> error + AuthInfo"
  SetStorageBackendContentOnlineStatus :: "event list \<Rightarrow> string \<Rightarrow> bool \<Rightarrow> error option"
  FormatRespErr :: "(string \<times> jvalue) list \<Rightarrow> int \<times> string \<times> error option"
  GetValue_string :: "(string \<times> jvalue) list \<Rightarrow> string \<Rightarrow> string \<times> bool"
  Sprint_Response :: "Response \<Rightarrow> string"
  NeedReLogin :: "Response \<Rightarrow> error option \<Rightarrow> bool"

text \<open>\<open>RestClient\<close>. \<open>Client\<close> is the HTTP client (a handle, \<open>None\<close> for nil);
  \<open>ReLoginMutex\<close> is not a field of the model: see \<open>ReLogin\<close>.\<close>

record RestClient =
  Client :: "nat option"
  Url :: string
  Urls :: "string list"
  VStoreID :: string
  VStoreName :: string
  User :: string
  SecretNamespace :: string
  SecretName :: string
  StorageVersion :: string
  BackendID :: string
  Storage :: string
  DeviceId :: string
  Token :: string
  SystemInfoRefreshing :: "32 word"
  RequestSemaphore :: "semaphore option"

text \<open>Modelled from the spec: the declaration of the package variable
  \<open>RequestSemaphoreMap\<close> is not among the source files. The spec's data model has a
  registry from device serial number to permit "plus one default-capacity permit used
  before any device identity is known": the entry under the key
  \<open>UninitializedStorage\<close> always exists, every other key may be absent (a nil entry).\<close>

record registry =
  uninitialized :: semaphore
  devices :: "string \<rightharpoonup> semaphore"

definition RequestSemaphoreMap_get :: "externals \<Rightarrow> registry \<Rightarrow> string \<Rightarrow> semaphore option" where
  "RequestSemaphoreMap_get E R k =
     (if k = UninitializedStorage E then Some (uninitialized R) else devices R k)"

definition RequestSemaphoreMap_set :: "externals \<Rightarrow> registry \<Rightarrow> string \<Rightarrow> semaphore \<Rightarrow> registry" where
  "RequestSemaphoreMap_set E R k s =
     (if k = UninitializedStorage E then R\<lparr>uninitialized := s\<rparr>
      else R\<lparr>devices := (devices R)(k \<mapsto> s)\<rparr>)"

text \<open>The state a call runs in: the client it is a method of, the process-wide
  registry, the counter that names the next permit object, and the trace.\<close>

record 'c world =
  cli :: 'c
  RequestSemaphoreMap :: registry
  next_sem :: nat
  trace :: "event list"

text \<open>A call either returns or panics.\<close>

datatype 'a outcome = Returned 'a | Panicked

section \<open>Package base: request construction and BaseCall\<close>

definition GetDeviceSN :: "RestClient \<Rightarrow> string" where
  "GetDeviceSN c = DeviceId c"

text \<open>\<open>GetRequest\<close>. \<open>http.NewRequest\<close> either rejects the method or URL or returns a
  request with an empty, non-nil header, so the branch for a nil request or nil
  header is never taken.\<close>

definition GetRequest ::
  "externals \<Rightarrow> RestClient \<Rightarrow> string \<Rightarrow> string \<Rightarrow> (string \<times> jvalue) list option \<Rightarrow> error + request" where
  "GetRequest E c method url data =
     (let reqUrl = Url c @ (if DeviceId c \<noteq> [] then ''/'' @ DeviceId c else []) @ url in
      case (case data of
              None \<Rightarrow> Inr None
            | Some d \<Rightarrow> (case json_Marshal E d of Inl e \<Rightarrow> Inl e | Inr bytes \<Rightarrow> Inr (Some bytes))) of
        Inl e \<Rightarrow> Inl e
      | Inr reqBody \<Rightarrow>
          (case http_NewRequest E method reqUrl of
             Some e \<Rightarrow> Inl e
           | None \<Rightarrow>
               (let req0 = \<lparr>Method = method, URL = reqUrl, Header = [], Body = reqBody\<rparr>;
                    req1 = Header_Set ''Connection'' ''keep-alive'' req0;
                    req2 = Header_Set ''Content-Type'' ''application/json'' req1
                in Inr (if Token c \<noteq> [] then Header_Set ''iBaseToken'' (Token c) req2 else req2))))"

text \<open>The device-level permit of \<open>BaseCall\<close>: the one registered for the device serial
  number, else the one under \<open>UninitializedStorage\<close>.\<close>

definition device_permit :: "externals \<Rightarrow> registry \<Rightarrow> string \<Rightarrow> semaphore" where
  "device_permit E R sn =
     (case RequestSemaphoreMap_get E R sn of
        Some p \<Rightarrow> p
      | None \<Rightarrow> uninitialized R)"

definition outcome_result :: "externals \<Rightarrow> http_outcome \<Rightarrow> Response \<times> error option" where
  "outcome_result E out =
     (case out of
        DoFails e \<Rightarrow> (Response_zero, Some (Unconnected E))
      | ReadFails e \<Rightarrow> (Response_zero, Some e)
      | UnmarshalFails body e \<Rightarrow> (Response_zero, Some e)
      | Decodes r \<Rightarrow> (r, None))"

text \<open>\<open>BaseCall\<close>. For the two session paths the request is built without
  \<open>ReLoginMutex\<close>, for every other path under it; both build the same request. The
  deferred releases run in reverse order once the exchange is over.\<close>

definition BaseCall ::
  "externals \<Rightarrow> string \<Rightarrow> string \<Rightarrow> (string \<times> jvalue) list option \<Rightarrow> RestClient world
     \<Rightarrow> (Response \<times> error option) \<times> RestClient world" where
  "BaseCall E method url data w =
     (case Client (cli w) of
        None \<Rightarrow> ((Response_zero, Some ''http client is nil''), w)
      | Some h \<Rightarrow>
          (case GetRequest E (cli w) method url data of
             Inl e \<Rightarrow> ((Response_zero, Some e), w)
           | Inr req \<Rightarrow>
               (case RequestSemaphore (cli w) of
                  None \<Rightarrow> ((Response_zero, Some ''request semaphore is nil''), w)
                | Some s \<Rightarrow>
                    (let d = device_permit E (RequestSemaphoreMap w) (GetDeviceSN (cli w));
                         t1 = trace w @ [Acquire s, Acquire d];
                         out = http_Do E t1 h req
                     in (outcome_result E out,
                         w\<lparr>trace := t1 @ [Sent h req out, Release d, Release s]\<rparr>)))))"

section \<open>Package base: Login, Logout, ReLogin\<close>

text \<open>The exchange \<open>cli.Urls[i], cli.Urls[len(cli.Urls)-1] = cli.Urls[len(cli.Urls)-1],
  cli.Urls[i]\<close>: both right-hand sides are read first. \<open>loginCall\<close> only runs it with
  \<open>i\<close> inside the list.\<close>

definition swap_to_last :: "nat \<Rightarrow> string list \<Rightarrow> string list" where
  "swap_to_last i xs = (xs[i := xs ! (length xs - 1)])[length xs - 1 := xs ! i]"

text \<open>The loop of \<open>loginCall\<close> over \<open>range cli.Urls\<close>: the addresses still to try, the
  index of the first of them, and the loop variables \<open>resp\<close> and \<open>err\<close>.\<close>

fun loginCall_loop ::
  "externals \<Rightarrow> (string \<times> jvalue) list option \<Rightarrow> string list \<Rightarrow> nat \<Rightarrow> Response \<Rightarrow> error option
     \<Rightarrow> RestClient world \<Rightarrow> (Response \<times> error option) \<times> RestClient world" where
  "loginCall_loop E data [] i resp err w = ((resp, err), w)"
| "loginCall_loop E data (url # rest) i resp err w =
     (let w1 = w\<lparr>cli := (cli w)\<lparr>Url := url @ ''/deviceManager/rest''\<rparr>,
                  trace := trace w @ [TryLogin (url @ ''/deviceManager/rest'')]\<rparr>;
          (r, w2) = BaseCall E ''POST'' ''/xx/sessions'' data w1
      in case snd r of
           None \<Rightarrow> (r, w2\<lparr>cli := (cli w2)\<lparr>Urls := swap_to_last i (Urls (cli w2))\<rparr>\<rparr>)
         | Some e \<Rightarrow>
             if e \<noteq> Unconnected E
             then (r, w2\<lparr>trace := trace w2 @ [LoginError (Url (cli w2))]\<rparr>)
             else loginCall_loop E data rest (Suc i) (fst r) (snd r)
                    (w2\<lparr>trace := trace w2 @ [LoginConnFailure (Url (cli w2))]\<rparr>))"

definition loginCall ::
  "externals \<Rightarrow> (string \<times> jvalue) list option \<Rightarrow> RestClient world
     \<Rightarrow> (Response \<times> error option) \<times> RestClient world" where
  "loginCall E data w =
     (let (r, w') = loginCall_loop E data (Urls (cli w)) 0 Response_zero None w
      in if snd r \<noteq> None then ((Response_zero, snd r), w') else (r, w'))"

definition getRequestParams ::
  "externals \<Rightarrow> string \<Rightarrow> RestClient world \<Rightarrow> (error + (string \<times> jvalue) list) \<times> RestClient world" where
  "getRequestParams E backendID w =
     (case GetAuthInfoFromBackendID E (trace w) backendID of
        Inl e \<Rightarrow> (Inl e, w)
      | Inr authInfo \<Rightarrow>
          (let w1 = w\<lparr>cli := (cli w)\<lparr>User := auth_User authInfo\<rparr>\<rparr>;
               data = [(''username'', JStr (auth_User authInfo)),
                       (''password'', JStr (auth_Password authInfo)),
                       (''scope'', JStr (auth_Scope authInfo))]
           in (Inr (if length (VStoreName (cli w1)) > 0 \<and> VStoreName (cli w1) \<noteq> DefaultVStore E
                    then data @ [(''vstorename'', JStr (VStoreName (cli w1)))]
                    else data), w1)))"

text \<open>\<open>setDataFromRespData\<close>. Each field is assigned before its \<open>ok\<close> is looked at.\<close>

definition setDataFromRespData ::
  "externals \<Rightarrow> Response \<Rightarrow> RestClient world \<Rightarrow> error option \<times> RestClient world" where
  "setDataFromRespData E resp w =
     (case Data resp of
        JObj respData \<Rightarrow>
          (let (dev, ok1) = GetValue_string E respData ''deviceid'';
               w1 = w\<lparr>cli := (cli w)\<lparr>DeviceId := dev\<rparr>\<rparr>
           in if \<not> ok1
              then (Some (''convert respData[\"deviceid\"]: ['' @
                          (case index_map respData ''deviceid'' of None \<Rightarrow> go_type JNull | Some v \<Rightarrow> go_type v)
                          @ ''] to string failed''), w1)
              else
                (let w2 = (if RequestSemaphoreMap_get E (RequestSemaphoreMap w1) (DeviceId (cli w1)) = None
                           then (let s = \<lparr>sem_id = next_sem w1, permits = MaxStorageThreads E\<rparr>
                                 in w1\<lparr>RequestSemaphoreMap :=
                                          RequestSemaphoreMap_set E (RequestSemaphoreMap w1) (DeviceId (cli w1)) s,
                                        next_sem := Suc (next_sem w1),
                                        trace := trace w1 @ [NewSemaphore (DeviceId (cli w1)) s]\<rparr>)
                           else w1);
                     (tok, ok2) = GetValue_string E respData ''iBaseToken'';
                     w3 = w2\<lparr>cli := (cli w2)\<lparr>Token := tok\<rparr>\<rparr>
                 in if \<not> ok2
                    then (Some (''convert respData[\"iBaseToken\"]: ['' @
                                (case index_map respData ''iBaseToken'' of None \<Rightarrow> go_type JNull | Some v \<Rightarrow> go_type v)
                                @ ''] to string failed''), w3)
                    else
                      (let (vn, ok3) = GetValue_string E respData ''vstoreName'';
                           w4 = w3\<lparr>cli := (cli w3)\<lparr>VStoreName := (if ok3 then vn else DefaultVStore E)\<rparr>\<rparr>;
                           (vi, ok4) = GetValue_string E respData ''vstoreId'';
                           w5 = w4\<lparr>cli := (cli w4)\<lparr>VStoreID := (if ok4 then vi else DefaultVStoreID E)\<rparr>\<rparr>
                       in (None, w5))))
      | other \<Rightarrow>
          (Some (''convert resp.Data to map[string]interface{} failed, data type: ['' @ go_type other @ '']''), w))"

text \<open>\<open>Logout\<close>. \<open>resp.Error["code"].(float64)\<close> is an unchecked type assertion: it
  panics when the entry is missing or is not a number.\<close>

definition Logout :: "externals \<Rightarrow> RestClient world \<Rightarrow> unit outcome \<times> RestClient world" where
  "Logout E w =
     (let (r, w1) = BaseCall E ''DELETE'' ''/sessions'' None w
      in case snd r of
           Some e \<Rightarrow> (Returned (), w1)
         | None \<Rightarrow>
             (case index_map (Error (fst r)) ''code'' of
                Some (JNum code) \<Rightarrow> (Returned (), w1)
              | _ \<Rightarrow> (Panicked, w1)))"

definition Contains :: "int list \<Rightarrow> int \<Rightarrow> bool" where
  "Contains xs x = (x \<in> set xs)"

text \<open>\<open>Login\<close>. \<open>pkgUtils.Errorln\<close> logs its message and returns it as the error.\<close>

definition Login :: "externals \<Rightarrow> RestClient world \<Rightarrow> error option outcome \<times> RestClient world" where
  "Login E w =
     (let (h, herr) = NewHTTPClientByBackendID E (trace w) (BackendID (cli w));
          w0 = w\<lparr>cli := (cli w)\<lparr>Client := h\<rparr>\<rparr>
      in case herr of
           Some e \<Rightarrow>
             (Returned (Some (''new http client by backend '' @ BackendID (cli w0) @ '' failed, err is '' @ e)), w0)
         | None \<Rightarrow>
             (case getRequestParams E (BackendID (cli w0)) w0 of
                (Inl e, w1) \<Rightarrow> (Returned (Some (''get reuqest failed while login, error : '' @ e)), w1)
              | (Inr data, w1) \<Rightarrow>
                  (let w2 = w1\<lparr>cli := (cli w1)\<lparr>DeviceId := [], Token := []\<rparr>\<rparr>;
                       (r, w3) = loginCall E (Some data) w2
                   in case snd r of
                        Some e \<Rightarrow> (Returned (Some (''request storage failed while login, error : '' @ e)), w3)
                      | None \<Rightarrow>
                          (let resp = fst r;
                               code = fst (FormatRespErr E (Error resp))
                           in if code \<noteq> 0
                              then
                                (let msg = ''login '' @ Url (cli w3) @ '' error: '' @ Sprint_Response E resp
                                 in if Contains (WrongPasswordErrorCodes E) code \<or> Contains (AccountBeenLocked E) code
                                       \<or> code = IPLockErrorCode E
                                    then
                                      (let w4 = w3\<lparr>trace := trace w3 @ [SetOnlineStatus (BackendID (cli w3)) False]\<rparr>
                                       in case SetStorageBackendContentOnlineStatus E (trace w3) (BackendID (cli w3)) False of
                                            Some e \<Rightarrow>
                                              (Returned (Some (msg @ [CHR 0x0A] @ ''setStorageBackendContentOffline [''
                                                                @ BackendID (cli w3) @ ''] failed, error: '' @ e)), w4)
                                          | None \<Rightarrow> (Returned (Some msg), w4))
                                    else (Returned (Some msg), w3))
                              else
                                (case setDataFromRespData E resp w3 of
                                   (None, w4) \<Rightarrow> (Returned None, w4)
                                 | (Some e, w4) \<Rightarrow>
                                     (case Logout E w4 of
                                        (Panicked, w5) \<Rightarrow> (Panicked, w5)
                                      | (Returned u, w5) \<Rightarrow>
                                          (Returned (Some e),
                                           w5\<lparr>trace := trace w5 @ [SetOnlineStatus (BackendID (cli w5)) False]\<rparr>)))))))"

text \<open>\<open>ReLogin\<close>. The token is read first, then \<open>ReLoginMutex\<close> is taken. While this
  context waits for the mutex other contexts run: \<open>others\<close> is what they have made of
  the client by the time the mutex is granted (the identity when nobody else ran).\<close>

definition ReLogin ::
  "externals \<Rightarrow> (RestClient \<Rightarrow> RestClient) \<Rightarrow> RestClient world \<Rightarrow> error option outcome \<times> RestClient world" where
  "ReLogin E others w =
     (let oldToken = Token (cli w);
          w1 = w\<lparr>cli := others (cli w)\<rparr>
      in if Token (cli w1) \<noteq> [] \<and> oldToken \<noteq> Token (cli w1)
         then (Returned None, w1)
         else (case (if Token (cli w1) \<noteq> [] then Logout E w1 else (Returned (), w1)) of
                 (Panicked, w2) \<Rightarrow> (Panicked, w2)
               | (Returned u, w2) \<Rightarrow> Login E w2))"

section \<open>Package base: Call\<close>

text \<open>
  \<open>Call\<close> runs \<open>BaseCall\<close>, \<open>ReLogin\<close> and \<open>SetSystemInfo\<close> on the client.
  \<open>SetSystemInfo\<close> queries the system through \<open>GetSystem\<close>, that is through \<open>Get\<close> and
  so through \<open>Call\<close> again: an invocation of \<open>Call\<close> may contain further invocations
  of \<open>Call\<close>, each running the same body. The body is modelled over the three
  methods it calls, which may be any state transformers on any state (the methods of
  package \<open>base\<close> above, with the nested invocation inside \<open>SetSystemInfo\<close>, are one
  choice); a method that panics ends the body.
\<close>

record 's callees =
  call_BaseCall :: "string \<Rightarrow> string \<Rightarrow> (string \<times> jvalue) list option \<Rightarrow> 's
                      \<Rightarrow> (Response \<times> error option) outcome \<times> 's"
  call_ReLogin :: "'s \<Rightarrow> error option outcome \<times> 's"
  call_SetSystemInfo :: "'s \<Rightarrow> error option outcome \<times> 's"


section \<open>Package client of oceanstor: SafeCall, SafeBaseCall, safeDoCall\<close>

text \<open>\<open>OceanstorClient\<close> embeds the \<open>RestClient\<close> of its own package, whose declaration
  is not among the source files: it has the fields the methods below name. Its
  methods \<open>GetRequest\<close>, \<open>GetDeviceSN\<close> and \<open>GetCurrentLif\<close> are parameters.\<close>

record OceanstorClient = RestClient +
  CurrentLifWwn :: string
  CurrentSiteWwn :: string

record oceanstor_methods =
  oc_GetRequest :: "OceanstorClient \<Rightarrow> string \<Rightarrow> string \<Rightarrow> (string \<times> jvalue) list option
                      \<Rightarrow> request option \<times> error option"
  oc_GetDeviceSN :: "OceanstorClient \<Rightarrow> string"
  oc_GetCurrentLif :: "OceanstorClient \<Rightarrow> string"


definition systemInfoRefreshing :: "OceanstorClient \<Rightarrow> bool" where
  "systemInfoRefreshing c = (SystemInfoRefreshing c = 1)"

definition safe_outcome_result :: "externals \<Rightarrow> http_outcome \<Rightarrow> Response \<times> error option" where
  "safe_outcome_result E out =
     (case out of
        DoFails e \<Rightarrow> (Response_zero, Some (Unconnected E))
      | ReadFails e \<Rightarrow> (Response_zero, Some (''read response data error: '' @ e))
      | UnmarshalFails body e \<Rightarrow> (Response_zero, Some (''json.Unmarshal data '' @ body @ '' error: '' @ e))
      | Decodes r \<Rightarrow> (r, None))"

definition safeDoCall ::
  "externals \<Rightarrow> oceanstor_methods \<Rightarrow> string \<Rightarrow> string \<Rightarrow> nat \<Rightarrow> request \<Rightarrow> OceanstorClient world
     \<Rightarrow> (Response \<times> error option) \<times> OceanstorClient world" where
  "safeDoCall E X method url h req w =
     (let isNotSessionUrl = (url \<noteq> ''/xx/sessions'' \<and> url \<noteq> ''/sessions'')
      in if isNotSessionUrl \<and> CurrentLifWwn (cli w) \<noteq> [] \<and> systemInfoRefreshing (cli w)
         then ((Response_zero, Some ''querying lif and system information... Please wait''), w)
         else if isNotSessionUrl \<and> CurrentLifWwn (cli w) \<noteq> [] \<and> CurrentLifWwn (cli w) \<noteq> CurrentSiteWwn (cli w)
         then ((Response_zero,
                Some (''current logical port ['' @ oc_GetCurrentLif X (cli w) @ ''] is not running on own site'')), w)
         else (let out = http_Do E (trace w) h req
               in (safe_outcome_result E out, w\<lparr>trace := trace w @ [Sent h req out]\<rparr>)))"

text \<open>\<open>SafeBaseCall\<close>. A permit is taken only where one is there: the client-level one
  if the client has one, the device-level one if the registry has an entry for the
  device serial number. The deferred releases run after \<open>safeDoCall\<close>, last taken
  first.\<close>

definition SafeBaseCall ::
  "externals \<Rightarrow> oceanstor_methods \<Rightarrow> string \<Rightarrow> string \<Rightarrow> (string \<times> jvalue) list option
     \<Rightarrow> OceanstorClient world \<Rightarrow> (Response \<times> error option) \<times> OceanstorClient world" where
  "SafeBaseCall E X method url data w =
     (case Client (cli w) of
        None \<Rightarrow>
          ((Response_zero, Some (''failed to send request method: '' @ method @ '', url: '' @ url
                                  @ '', cause by client not init'')), w)
      | Some h \<Rightarrow>
          (case oc_GetRequest X (cli w) method url data of
             (req, Some e) \<Rightarrow> ((Response_zero, Some (''get request failed, error: '' @ e)), w)
           | (None, None) \<Rightarrow> ((Response_zero, Some ''get request failed, error: %!w(<nil>)''), w)
           | (Some req, None) \<Rightarrow>
               (let own = (case RequestSemaphore (cli w) of None \<Rightarrow> [] | Some s \<Rightarrow> [s]);
                    dev = (case RequestSemaphoreMap_get E (RequestSemaphoreMap w) (oc_GetDeviceSN X (cli w)) of
                             None \<Rightarrow> []
                           | Some p \<Rightarrow> [p]);
                    w1 = w\<lparr>trace := trace w @ map Acquire (own @ dev)\<rparr>;
                    (r, w2) = safeDoCall E X method url h req w1
                in (r, w2\<lparr>trace := trace w2 @ map Release (dev @ own)\<rparr>))))"

section \<open>Reading a trace\<close>

text \<open>The events a call added: the trace it left, minus the trace it started from.\<close>

definition new_events :: "'c world \<Rightarrow> 'c world \<Rightarrow> event list" where
  "new_events w w' = drop (length (trace w)) (trace w')"

fun tried :: "event \<Rightarrow> string list" where
  "tried (TryLogin u) = [u]"
| "tried _ = []"

fun conn_failed :: "event \<Rightarrow> string list" where
  "conn_failed (LoginConnFailure u) = [u]"
| "conn_failed _ = []"

fun sent :: "event \<Rightarrow> request list" where
  "sent (Sent h req out) = [req]"
| "sent _ = []"

fun replied :: "event \<Rightarrow> Response list" where
  "replied (Sent h req (Decodes r)) = [r]"
| "replied _ = []"

fun created :: "event \<Rightarrow> (string \<times> semaphore) list" where
  "created (NewSemaphore k s) = [(k, s)]"
| "created _ = []"

text \<open>The addresses \<open>loginCall\<close> tried, the ones it gave up on for a connection
  failure, the requests handed to the HTTP client, the envelopes that came back
  decoded, and the permits created, each in order.\<close>

definition login_tries :: "event list \<Rightarrow> string list" where
  "login_tries es = concat (map tried es)"

definition conn_failures :: "event list \<Rightarrow> string list" where
  "conn_failures es = concat (map conn_failed es)"

definition sent_requests :: "event list \<Rightarrow> request list" where
  "sent_requests es = concat (map sent es)"

definition replies :: "event list \<Rightarrow> Response list" where
  "replies es = concat (map replied es)"

definition created_permits :: "event list \<Rightarrow> (string \<times> semaphore) list" where
  "created_permits es = concat (map created es)"

definition created_for :: "string \<Rightarrow> event list \<Rightarrow> semaphore list" where
  "created_for sn es = map snd (filter (\<lambda>ks. fst ks = sn) (created_permits es))"

definition token_headers :: "event list \<Rightarrow> string option list" where
  "token_headers es = map (\<lambda>req. Header_Get req ''iBaseToken'') (sent_requests es)"

definition login_address :: "string \<Rightarrow> string" where
  "login_address url = url @ ''/deviceManager/rest''"

text \<open>The spec's reading of the rotation, in its words: the succeeded address moves
  to the final slot and the others keep their relative order.\<close>

definition spec_move_to_last :: "nat \<Rightarrow> string list \<Rightarrow> string list" where
  "spec_move_to_last i xs = take i xs @ drop (Suc i) xs @ [xs ! i]"

section \<open>Who calls what\<close>

text \<open>To count what one invocation of \<open>Call\<close> issues, each method it is given is
  wrapped so that it also notes its own invocation; the state is paired with the
  notes.\<close>

datatype issued = IssuedBaseCall string string | IssuedReLogin | IssuedSetSystemInfo

definition recording :: "'s callees \<Rightarrow> ('s \<times> issued list) callees" where
  "recording C =
     \<lparr>call_BaseCall = (\<lambda>method url data sl.
          case call_BaseCall C method url data (fst sl) of
            (r, s') \<Rightarrow> (r, (s', snd sl @ [IssuedBaseCall method url]))),
      call_ReLogin = (\<lambda>sl.
          case call_ReLogin C (fst sl) of (r, s') \<Rightarrow> (r, (s', snd sl @ [IssuedReLogin]))),
      call_SetSystemInfo = (\<lambda>sl.
          case call_SetSystemInfo C (fst sl) of (r, s') \<Rightarrow> (r, (s', snd sl @ [IssuedSetSystemInfo])))\<rparr>"

text \<open>A sequence of logins and relogins on one client, each relogin with what the
  other contexts did while it waited. A panic ends the sequence.\<close>

datatype session_op = OpLogin | OpReLogin "RestClient \<Rightarrow> RestClient"

fun run_ops :: "externals \<Rightarrow> session_op list \<Rightarrow> RestClient world \<Rightarrow> RestClient world" where
  "run_ops E [] w = w"
| "run_ops E (OpLogin # ops) w =
     (case Login E w of (Panicked, w') \<Rightarrow> w' | (Returned r, w') \<Rightarrow> run_ops E ops w')"
| "run_ops E (OpReLogin others # ops) w =
     (case ReLogin E others w of (Panicked, w') \<Rightarrow> w' | (Returned r, w') \<Rightarrow> run_ops E ops w')"

section \<open>Example environments\<close>

text \<open>A concrete choice of everything external, around a given network; the values
  of the constants are examples.\<close>

definition example_env :: "(event list \<Rightarrow> nat \<Rightarrow> request \<Rightarrow> http_outcome) \<Rightarrow> externals" where
  "example_env net =
     \<lparr>Unconnected = ''unconnected'', UninitializedStorage = ''UninitializedStorage'',
      MaxStorageThreads = 100, DefaultVStore = ''System_vStore'', DefaultVStoreID = ''0'',
      WrongPasswordErrorCodes = [1077987870, 1077949081], AccountBeenLocked = [1077949070, 1077987871],
      IPLockErrorCode = 1077949071,
      json_Marshal = (\<lambda>d. Inr ''{}''),
      http_NewRequest = (\<lambda>m u. None),
      http_Do = net,
      NewHTTPClientByBackendID = (\<lambda>t b. (Some 7, None)),
      GetAuthInfoFromBackendID =
        (\<lambda>t b. Inr \<lparr>auth_User = ''admin'', auth_Password = ''secret'', auth_Scope = ''0''\<rparr>),
      SetStorageBackendContentOnlineStatus = (\<lambda>t b online. None),
      FormatRespErr =
        (\<lambda>m. case map_of m ''code'' of Some (JNum c) \<Rightarrow> (c, [], None) | _ \<Rightarrow> (0, [], Some ''no code'')),
      GetValue_string = (\<lambda>m k. case map_of m k of Some (JStr s) \<Rightarrow> (s, True) | _ \<Rightarrow> ([], False)),
      Sprint_Response = (\<lambda>r. ''{...}''),
      NeedReLogin = (\<lambda>r err. err = Some ''unconnected'' \<or> map_of (Error r) ''code'' = Some (JNum (-401)))\<rparr>"

text \<open>A network that answers by the URL of the request; an address that is not in the
  table refuses the connection.\<close>

definition net_by_url :: "(string \<times> http_outcome) list \<Rightarrow> event list \<Rightarrow> nat \<Rightarrow> request \<Rightarrow> http_outcome" where
  "net_by_url table t h req =
     (case map_of table (URL req) of Some out \<Rightarrow> out | None \<Rightarrow> DoFails ''connection refused'')"

definition login_ok :: http_outcome where
  "login_ok = Decodes \<lparr>Error = [(''code'', JNum 0)],
                       Data = JObj [(''deviceid'', JStr ''SN1''), (''iBaseToken'', JStr ''T1'')]\<rparr>"

definition login_rejected :: http_outcome where
  "login_rejected = Decodes \<lparr>Error = [(''code'', JNum 1077949061), (''description'', JStr ''bad'')],
                             Data = JNull\<rparr>"

definition example_client :: "string list \<Rightarrow> RestClient" where
  "example_client urls =
     \<lparr>Client = Some 7, Url = [], Urls = urls, VStoreID = [], VStoreName = [], User = [],
      SecretNamespace = ''ns'', SecretName = ''secret'', StorageVersion = [], BackendID = ''backend-1'',
      Storage = ''oceanstor-san'', DeviceId = [], Token = [], SystemInfoRefreshing = 0,
      RequestSemaphore = Some \<lparr>sem_id = 0, permits = 30\<rparr>\<rparr>"

definition example_world :: "string list \<Rightarrow> RestClient world" where
  "example_world urls =
     \<lparr>cli = example_client urls,
      RequestSemaphoreMap = \<lparr>uninitialized = \<lparr>sem_id = 1, permits = 100\<rparr>, devices = Map.empty\<rparr>,
      next_sem = 2, trace = []\<rparr>"



definition nobody_answers :: externals where
  "nobody_answers = example_env (net_by_url [])"

text \<open>Three addresses \<open>u1\<close>, \<open>u2\<close>, \<open>u3\<close>, of which only \<open>u2\<close> or only \<open>u1\<close> answers the
  login; two addresses of which the first rejects the login.\<close>

definition three_urls :: "RestClient world" where
  "three_urls = example_world [''u1'', ''u2'', ''u3'']"

definition u2_answers :: externals where
  "u2_answers = example_env (net_by_url [(''u2/deviceManager/rest/xx/sessions'', login_ok)])"

definition u1_answers :: externals where
  "u1_answers = example_env (net_by_url [(''u1/deviceManager/rest/xx/sessions'', login_ok)])"



text \<open>One address, which answers the login.\<close>

definition one_url :: "RestClient world" where
  "one_url = example_world [''u1'']"

text \<open>A device that answers the login at \<open>u1\<close> and the logout of the session; a
  device whose answer to the logout has no error code; the world after a login at
  \<open>u1\<close>; and another context that has logged in again in the meantime.\<close>

definition logout_ok :: http_outcome where
  "logout_ok = Decodes \<lparr>Error = [(''code'', JNum 0)], Data = JNull\<rparr>"

definition u1_session :: externals where
  "u1_session = example_env (net_by_url
     [(''u1/deviceManager/rest/xx/sessions'', login_ok),
      (''u1/deviceManager/rest/SN1/sessions'', logout_ok)])"

definition logout_without_code :: externals where
  "logout_without_code = example_env (net_by_url
     [(''u1/deviceManager/rest/xx/sessions'', login_ok),
      (''u1/deviceManager/rest/SN1/sessions'', Decodes \<lparr>Error = [], Data = JObj []\<rparr>)])"

definition logged_in :: "RestClient world" where
  "logged_in = snd (Login u1_session one_url)"

definition relogged_elsewhere :: "RestClient \<Rightarrow> RestClient" where
  "relogged_elsewhere c = c\<lparr>Token := ''T2''\<rparr>"

definition nobody_else :: "RestClient \<Rightarrow> RestClient" where
  "nobody_else c = c"


definition answer_ok :: Response where
  "answer_ok = \<lparr>Error = [(''code'', JNum 0)], Data = JObj [(''x'', JNum 1)]\<rparr>"


text \<open>An oceanstor client at \<open>u1\<close>, logged in to device \<open>SN1\<close>, with the given
  logical-interface identities and refresh flag; its request builder puts the path
  after the base address.\<close>

definition example_oceanstor_methods :: oceanstor_methods where
  "example_oceanstor_methods =
     \<lparr>oc_GetRequest = (\<lambda>c method url data.
          (Some \<lparr>Method = method,
                 URL = Url c @ (if DeviceId c \<noteq> [] then ''/'' @ DeviceId c else []) @ url,
                 Header = (if Token c \<noteq> [] then [(''iBaseToken'', Token c)] else []), Body = None\<rparr>, None)),
      oc_GetDeviceSN = DeviceId,
      oc_GetCurrentLif = (\<lambda>c. ''lif0'')\<rparr>"

definition example_oceanstor_client :: "string \<Rightarrow> string \<Rightarrow> 32 word \<Rightarrow> OceanstorClient" where
  "example_oceanstor_client lif site flag =
     \<lparr>Client = Some 7, Url = ''u1/deviceManager/rest'', Urls = [''u1''], VStoreID = ''0'',
      VStoreName = ''System_vStore'', User = ''admin'', SecretNamespace = ''ns'', SecretName = ''secret'',
      StorageVersion = [], BackendID = ''backend-1'', Storage = ''oceanstor-san'', DeviceId = ''SN1'',
      Token = ''T1'', SystemInfoRefreshing = flag, RequestSemaphore = Some \<lparr>sem_id = 0, permits = 30\<rparr>,
      CurrentLifWwn = lif, CurrentSiteWwn = site\<rparr>"

definition example_oceanstor_world :: "string \<Rightarrow> string \<Rightarrow> 32 word \<Rightarrow> OceanstorClient world" where
  "example_oceanstor_world lif site flag =
     \<lparr>cli = example_oceanstor_client lif site flag,
      RequestSemaphoreMap = \<lparr>uninitialized = \<lparr>sem_id = 1, permits = 100\<rparr>, devices = Map.empty\<rparr>,
      next_sem = 2, trace = []\<rparr>"

text \<open>The same client before its first login: no device id, no token.\<close>

definition fresh_oceanstor_world :: "OceanstorClient world" where
  "fresh_oceanstor_world =
     (example_oceanstor_world [] [] 0)\<lparr>cli := (example_oceanstor_client [] [] 0)\<lparr>DeviceId := [], Token := []\<rparr>\<rparr>"

definition lun_answers :: externals where
  "lun_answers = example_env (net_by_url [(''u1/deviceManager/rest/SN1/lun'', Decodes answer_ok)])"

section \<open>Auxiliary definitions\<close>

text \<open>Names for what the proofs below talk about: the events one \<open>BaseCall\<close> adds, the
  world in which one iteration of the login loop calls \<open>BaseCall\<close>, the events the
  rest of the loop adds, and one trace being the other continued.\<close>

definition BaseCall_events :: "externals \<Rightarrow> string \<Rightarrow> string \<Rightarrow> (string \<times> jvalue) list option \<Rightarrow> RestClient world \<Rightarrow> event list" where
  "BaseCall_events E method url data w =
     (case (Client (cli w), GetRequest E (cli w) method url data, RequestSemaphore (cli w)) of
        (Some h, Inr req, Some s) \<Rightarrow>
          (let d = device_permit E (RequestSemaphoreMap w) (GetDeviceSN (cli w))
           in [Acquire s, Acquire d, Sent h req (http_Do E (trace w @ [Acquire s, Acquire d]) h req),
               Release d, Release s])
      | _ \<Rightarrow> [])"

definition attempt_world :: "string \<Rightarrow> RestClient world \<Rightarrow> RestClient world" where
  "attempt_world url w = w\<lparr>cli := (cli w)\<lparr>Url := login_address url\<rparr>, trace := trace w @ [TryLogin (login_address url)]\<rparr>"

definition extends :: "'c world \<Rightarrow> 'c world \<Rightarrow> bool" where
  "extends w w' = (\<exists>es. trace w' = trace w @ es)"

definition loop_events ::
  "externals \<Rightarrow> (string \<times> jvalue) list option \<Rightarrow> string list \<Rightarrow> nat \<Rightarrow> Response \<Rightarrow> error option
     \<Rightarrow> RestClient world \<Rightarrow> event list" where
  "loop_events E data rest i resp err w =
     new_events w (snd (loginCall_loop E data rest i resp err w))"

text \<open>The two ends of \<open>Login\<close>, around its call of \<open>loginCall\<close>: up to the clearing of
  the device id and the token, and from the check of the business code on.\<close>

definition login_begin ::
  "externals \<Rightarrow> RestClient world \<Rightarrow> (error + (string \<times> jvalue) list) \<times> RestClient world" where
  "login_begin E w =
     (let (h, herr) = NewHTTPClientByBackendID E (trace w) (BackendID (cli w));
          w0 = w\<lparr>cli := (cli w)\<lparr>Client := h\<rparr>\<rparr>
      in case herr of
           Some e \<Rightarrow>
             (Inl (''new http client by backend '' @ BackendID (cli w0) @ '' failed, err is '' @ e), w0)
         | None \<Rightarrow>
             (case getRequestParams E (BackendID (cli w0)) w0 of
                (Inl e, w1) \<Rightarrow> (Inl (''get reuqest failed while login, error : '' @ e), w1)
              | (Inr data, w1) \<Rightarrow> (Inr data, w1\<lparr>cli := (cli w1)\<lparr>DeviceId := [], Token := []\<rparr>\<rparr>)))"

definition login_end ::
  "externals \<Rightarrow> Response \<Rightarrow> RestClient world \<Rightarrow> error option outcome \<times> RestClient world" where
  "login_end E resp w3 =
     (let code = fst (FormatRespErr E (Error resp))
      in if code \<noteq> 0
         then
           (let msg = ''login '' @ Url (cli w3) @ '' error: '' @ Sprint_Response E resp
            in if Contains (WrongPasswordErrorCodes E) code \<or> Contains (AccountBeenLocked E) code
                  \<or> code = IPLockErrorCode E
               then
                 (let w4 = w3\<lparr>trace := trace w3 @ [SetOnlineStatus (BackendID (cli w3)) False]\<rparr>
                  in case SetStorageBackendContentOnlineStatus E (trace w3) (BackendID (cli w3)) False of
                       Some e \<Rightarrow>
                         (Returned (Some (msg @ [CHR 0x0A] @ ''setStorageBackendContentOffline [''
                                           @ BackendID (cli w3) @ ''] failed, error: '' @ e)), w4)
                     | None \<Rightarrow> (Returned (Some msg), w4))
               else (Returned (Some msg), w3))
         else
           (case setDataFromRespData E resp w3 of
              (None, w4) \<Rightarrow> (Returned None, w4)
            | (Some e, w4) \<Rightarrow>
                (case Logout E w4 of
                   (Panicked, w5) \<Rightarrow> (Panicked, w5)
                 | (Returned u, w5) \<Rightarrow>
                     (Returned (Some e),
                      w5\<lparr>trace := trace w5 @ [SetOnlineStatus (BackendID (cli w5)) False]\<rparr>))))"

definition setData_events :: "externals \<Rightarrow> Response \<Rightarrow> RestClient world \<Rightarrow> event list" where
  "setData_events E resp w =
     (case Data resp of
        JObj respData \<Rightarrow>
          (let dev = fst (GetValue_string E respData ''deviceid'')
           in if snd (GetValue_string E respData ''deviceid'')
                 \<and> RequestSemaphoreMap_get E (RequestSemaphoreMap w) dev = None
              then [NewSemaphore dev \<lparr>sem_id = next_sem w, permits = MaxStorageThreads E\<rparr>]
              else [])
      | _ \<Rightarrow> [])"

text \<open>What a step leaves of the registry: it continues the trace, keeps every permit
  that was registered, creates at most one permit for a serial number, and only for
  one that had none, registers what it creates, and creates with the fixed capacity.\<close>

definition permits_kept :: "externals \<Rightarrow> RestClient world \<Rightarrow> RestClient world \<Rightarrow> bool" where
  "permits_kept E w w' =
     (extends w w'
      \<and> (\<forall>sn p. RequestSemaphoreMap_get E (RequestSemaphoreMap w) sn = Some p
                 \<longrightarrow> RequestSemaphoreMap_get E (RequestSemaphoreMap w') sn = Some p)
      \<and> (\<forall>sn. length (created_for sn (new_events w w'))
                 \<le> (if RequestSemaphoreMap_get E (RequestSemaphoreMap w) sn = None then 1 else 0))
      \<and> (\<forall>sn. created_for sn (new_events w w') \<noteq> []
                 \<longrightarrow> RequestSemaphoreMap_get E (RequestSemaphoreMap w') sn \<noteq> None)
      \<and> (\<forall>ks \<in> set (created_permits (new_events w w')). permits (snd ks) = MaxStorageThreads E))"

text \<open>The two checks of \<open>safeDoCall\<close> that end a call before the request is sent.\<close>

definition safeDoCall_blocked :: "string \<Rightarrow> OceanstorClient \<Rightarrow> bool" where
  "safeDoCall_blocked url c =
     ((url \<noteq> ''/xx/sessions'' \<and> url \<noteq> ''/sessions'') \<and> CurrentLifWwn c \<noteq> []
      \<and> (systemInfoRefreshing c \<or> CurrentLifWwn c \<noteq> CurrentSiteWwn c))"

lemmas example_defs =
  example_env_def net_by_url_def login_ok_def login_rejected_def example_client_def example_world_def

lemmas model_defs =
  Login_def loginCall_def BaseCall_def GetRequest_def Header_Set_def Header_Get_def getRequestParams_def
  setDataFromRespData_def Logout_def device_permit_def GetDeviceSN_def RequestSemaphoreMap_get_def
  RequestSemaphoreMap_set_def outcome_result_def swap_to_last_def Response_zero_def index_map_def
  Contains_def login_address_def

lemmas trace_defs =
  new_events_def login_tries_def conn_failures_def sent_requests_def replies_def created_permits_def
  created_for_def token_headers_def

section \<open>Lemmas: requests and BaseCall\<close>

lemma map_of_filter_key:
  "map_of (filter (\<lambda>kv. fst kv \<noteq> k) xs) k' = (if k' = k then None else map_of xs k')"
  by (induction xs) auto

lemma Header_Get_Set:
  "Header_Get (Header_Set k v req) k' = (if k' = k then Some v else Header_Get req k')"
  by (simp add: Header_Get_def Header_Set_def map_of_filter_key)

lemma Header_Get_fresh:
  "Header_Get \<lparr>Method = m, URL = u, Header = [], Body = b\<rparr> k = None"
  by (simp add: Header_Get_def)

lemma GetRequest_headers_aux:
  assumes "GetRequest E c method url data = Inr req"
  shows "Header_Get req ''Connection'' = Some ''keep-alive''"
    and "Header_Get req ''Content-Type'' = Some ''application/json''"
    and "Header_Get req ''iBaseToken'' = (if Token c \<noteq> [] then Some (Token c) else None)"
  using assms
  by (auto simp: GetRequest_def Let_def Header_Get_Set Header_Get_fresh split: option.splits sum.splits if_splits)

lemma GetRequest_Method:
  "GetRequest E c method url data = Inr req \<Longrightarrow> Method req = method"
  by (auto simp: GetRequest_def Let_def Header_Set_def split: option.splits sum.splits if_splits)

lemma BaseCall_world:
  "snd (BaseCall E method url data w) = w\<lparr>trace := trace w @ BaseCall_events E method url data w\<rparr>"
  by (simp add: BaseCall_def BaseCall_events_def Let_def split: option.splits sum.splits)

lemma BaseCall_events_filters [simp]:
  "login_tries (BaseCall_events E method url data w) = []"
  "conn_failures (BaseCall_events E method url data w) = []"
  "created_permits (BaseCall_events E method url data w) = []"
  by (auto simp: BaseCall_events_def Let_def trace_defs split: option.splits sum.splits)

lemma BaseCall_events_sent:
  "req \<in> set (sent_requests (BaseCall_events E method url data w)) \<Longrightarrow>
     GetRequest E (cli w) method url data = Inr req"
  by (auto simp: BaseCall_events_def Let_def trace_defs split: option.splits sum.splits)


lemma filters_append [simp]:
  "login_tries (xs @ ys) = login_tries xs @ login_tries ys"
  "conn_failures (xs @ ys) = conn_failures xs @ conn_failures ys"
  "sent_requests (xs @ ys) = sent_requests xs @ sent_requests ys"
  "replies (xs @ ys) = replies xs @ replies ys"
  "created_permits (xs @ ys) = created_permits xs @ created_permits ys"
  by (simp_all add: trace_defs)

lemma filters_Cons [simp]:
  "login_tries (e # es) = tried e @ login_tries es"
  "conn_failures (e # es) = conn_failed e @ conn_failures es"
  "sent_requests (e # es) = sent e @ sent_requests es"
  "replies (e # es) = replied e @ replies es"
  "created_permits (e # es) = created e @ created_permits es"
  by (simp_all add: trace_defs)

lemma filters_Nil [simp]:
  "login_tries [] = []" "conn_failures [] = []" "sent_requests [] = []" "replies [] = []" "created_permits [] = []"
  by (simp_all add: trace_defs)

lemma loop_Cons:
  "loginCall_loop E data (url # rest) i resp err w =
     (let w1 = attempt_world url w;
          r = fst (BaseCall E ''POST'' ''/xx/sessions'' data w1);
          w2 = w1\<lparr>trace := trace w1 @ BaseCall_events E ''POST'' ''/xx/sessions'' data w1\<rparr>
      in case snd r of
           None \<Rightarrow> (r, w2\<lparr>cli := (cli w2)\<lparr>Urls := swap_to_last i (Urls (cli w2))\<rparr>\<rparr>)
         | Some e \<Rightarrow>
             if e \<noteq> Unconnected E
             then (r, w2\<lparr>trace := trace w2 @ [LoginError (login_address url)]\<rparr>)
             else loginCall_loop E data rest (Suc i) (fst r) (snd r)
                    (w2\<lparr>trace := trace w2 @ [LoginConnFailure (login_address url)]\<rparr>))"
  by (simp add: Let_def attempt_world_def login_address_def split_beta BaseCall_world split: option.splits)

declare loginCall_loop.simps(2) [simp del]

lemma extends_refl [simp]: "extends w w"
  by (simp add: extends_def)

lemma extends_trans: "extends w w' \<Longrightarrow> extends w' w'' \<Longrightarrow> extends w w''"
  by (auto simp: extends_def)

lemma extendsI: "trace w' = trace w @ es \<Longrightarrow> extends w w'"
  by (auto simp: extends_def)

lemma new_events_eq: "trace w' = trace w @ es \<Longrightarrow> new_events w w' = es"
  by (simp add: new_events_def)

lemma new_events_trans:
  "extends w w' \<Longrightarrow> extends w' w'' \<Longrightarrow> new_events w w'' = new_events w w' @ new_events w' w''"
  by (auto simp: extends_def new_events_def)

lemma new_events_self [simp]: "new_events w w = []"
  by (simp add: new_events_def)

lemma new_events_cli_update [simp]:
  "new_events w (w'\<lparr>cli := c\<rparr>) = new_events w w'"
  "new_events (w\<lparr>cli := c\<rparr>) w' = new_events w w'"
  by (simp_all add: new_events_def)

lemma extends_cli_update [simp]:
  "extends w (w'\<lparr>cli := c\<rparr>) = extends w w'"
  "extends (w\<lparr>cli := c\<rparr>) w' = extends w w'"
  by (simp_all add: extends_def)

lemma BaseCall_extends: "extends w (snd (BaseCall E method url data w))"
  by (rule extendsI [where es = "BaseCall_events E method url data w"]) (simp add: BaseCall_world)

lemma BaseCall_new_events:
  "new_events w (snd (BaseCall E method url data w)) = BaseCall_events E method url data w"
  by (rule new_events_eq) (simp add: BaseCall_world)

lemma loop_extends: "extends w (snd (loginCall_loop E data rest i resp err w))"
proof (induction rest arbitrary: i resp err w)
  case Nil
  show ?case by simp
next
  case (Cons url rest)
  let ?w1 = "attempt_world url w"
  let ?bs = "BaseCall_events E ''POST'' ''/xx/sessions'' data ?w1"
  let ?r = "fst (BaseCall E ''POST'' ''/xx/sessions'' data ?w1)"
  let ?w3 = "?w1\<lparr>trace := trace ?w1 @ ?bs @ [LoginConnFailure (login_address url)]\<rparr>"
  have "extends w ?w3"
    by (simp add: extends_def attempt_world_def)
  from extends_trans [OF this Cons.IH [where i = "Suc i" and resp = "fst ?r" and err = "snd ?r" and w = ?w3]]
  show ?case
    by (auto simp: loop_Cons Let_def extends_def attempt_world_def split: option.splits)
qed

lemma loop_events_Nil [simp]: "loop_events E data [] i resp err w = []"
  by (simp add: loop_events_def)

lemma loop_events_Cons:
  "loop_events E data (url # rest) i resp err w =
     (let w1 = attempt_world url w;
          r = fst (BaseCall E ''POST'' ''/xx/sessions'' data w1);
          bs = BaseCall_events E ''POST'' ''/xx/sessions'' data w1;
          a = login_address url
      in case snd r of
           None \<Rightarrow> TryLogin a # bs
         | Some e \<Rightarrow>
             if e \<noteq> Unconnected E then TryLogin a # bs @ [LoginError a]
             else TryLogin a # bs @ [LoginConnFailure a] @
                  loop_events E data rest (Suc i) (fst r) (snd r)
                    (w1\<lparr>trace := trace w1 @ bs @ [LoginConnFailure a]\<rparr>))"
proof -
  let ?w1 = "attempt_world url w"
  let ?bs = "BaseCall_events E ''POST'' ''/xx/sessions'' data ?w1"
  let ?r = "fst (BaseCall E ''POST'' ''/xx/sessions'' data ?w1)"
  let ?a = "login_address url"
  let ?w3 = "?w1\<lparr>trace := trace ?w1 @ ?bs @ [LoginConnFailure ?a]\<rparr>"
  have e1: "extends w ?w3" and n1: "new_events w ?w3 = TryLogin ?a # ?bs @ [LoginConnFailure ?a]"
    by (simp_all add: extends_def new_events_def attempt_world_def)
  have "new_events w (snd (loginCall_loop E data rest (Suc i) (fst ?r) (snd ?r) ?w3))
        = TryLogin ?a # ?bs @ [LoginConnFailure ?a] @ loop_events E data rest (Suc i) (fst ?r) (snd ?r) ?w3"
    using new_events_trans [OF e1 loop_extends, of E data rest "Suc i" "fst ?r" "snd ?r"]
    by (simp add: n1 loop_events_def)
  then show ?thesis
    by (auto simp: loop_events_def loop_Cons Let_def new_events_def attempt_world_def split: option.splits)
qed

lemma loop_facts:
  "login_tries (loop_events E data rest i resp err w)
     = take (length (login_tries (loop_events E data rest i resp err w))) (map login_address rest)
   \<and> conn_failures (loop_events E data rest i resp err w)
     = take (length (conn_failures (loop_events E data rest i resp err w))) (map login_address rest)
   \<and> (length (conn_failures (loop_events E data rest i resp err w)) = length (login_tries (loop_events E data rest i resp err w))
      \<or> Suc (length (conn_failures (loop_events E data rest i resp err w))) = length (login_tries (loop_events E data rest i resp err w)))
   \<and> (length (conn_failures (loop_events E data rest i resp err w)) = length (login_tries (loop_events E data rest i resp err w))
        \<longrightarrow> length (login_tries (loop_events E data rest i resp err w)) = length rest
            \<and> (rest \<noteq> [] \<longrightarrow> snd (fst (loginCall_loop E data rest i resp err w)) = Some (Unconnected E)))
   \<and> (Suc (length (conn_failures (loop_events E data rest i resp err w))) = length (login_tries (loop_events E data rest i resp err w))
        \<longrightarrow> snd (fst (loginCall_loop E data rest i resp err w)) \<noteq> Some (Unconnected E))
   \<and> created_permits (loop_events E data rest i resp err w) = []"
proof (induction rest arbitrary: i resp err w)
  case Nil
  show ?case by simp
next
  case (Cons url rest)
  let ?w1 = "attempt_world url w"
  let ?bs = "BaseCall_events E ''POST'' ''/xx/sessions'' data ?w1"
  let ?r = "fst (BaseCall E ''POST'' ''/xx/sessions'' data ?w1)"
  let ?a = "login_address url"
  let ?w3 = "?w1\<lparr>trace := trace ?w1 @ ?bs @ [LoginConnFailure ?a]\<rparr>"
  note IH = Cons.IH [where i = "Suc i" and resp = "fst ?r" and err = "snd ?r" and w = ?w3]
  show ?case
  proof (cases "snd ?r")
    case None
    then show ?thesis by (simp add: loop_Cons loop_events_Cons Let_def)
  next
    case (Some e)
    show ?thesis
    proof (cases "e = Unconnected E")
      case False
      with Some show ?thesis by (simp add: loop_Cons loop_events_Cons Let_def)
    next
      case True
      with Some IH show ?thesis
        by (cases rest) (simp_all add: loop_Cons loop_events_Cons Let_def attempt_world_def)
    qed
  qed
qed

section \<open>Lemmas: the login loop\<close>


lemma loop_sent:
  "req \<in> set (sent_requests (loop_events E data rest i resp err w)) \<Longrightarrow>
     \<exists>u \<in> set (take (length (login_tries (loop_events E data rest i resp err w))) rest).
        GetRequest E ((cli w)\<lparr>Url := login_address u\<rparr>) ''POST'' ''/xx/sessions'' data = Inr req"
proof (induction rest arbitrary: i resp err w)
  case Nil
  then show ?case by simp
next
  case (Cons url rest)
  let ?w1 = "attempt_world url w"
  let ?bs = "BaseCall_events E ''POST'' ''/xx/sessions'' data ?w1"
  let ?r = "fst (BaseCall E ''POST'' ''/xx/sessions'' data ?w1)"
  let ?a = "login_address url"
  let ?w3 = "?w1\<lparr>trace := trace ?w1 @ ?bs @ [LoginConnFailure ?a]\<rparr>"
  note IH = Cons.IH [where i = "Suc i" and resp = "fst ?r" and err = "snd ?r" and w = ?w3]
  have here: "q \<in> set (sent_requests ?bs) \<Longrightarrow>
     GetRequest E ((cli w)\<lparr>Url := login_address url\<rparr>) ''POST'' ''/xx/sessions'' data = Inr q" for q
    using BaseCall_events_sent [of q E "''POST''" "''/xx/sessions''" data ?w1]
    by (simp add: attempt_world_def)
  show ?case
  proof (cases "snd ?r")
    case None
    with Cons.prems here show ?thesis by (auto simp: loop_events_Cons Let_def)
  next
    case (Some e)
    show ?thesis
    proof (cases "e = Unconnected E")
      case False
      with Some Cons.prems here show ?thesis by (auto simp: loop_events_Cons Let_def)
    next
      case True
      with Some Cons.prems here IH show ?thesis
        by (auto simp: loop_events_Cons Let_def attempt_world_def)
    qed
  qed
qed

lemma loginCall_snd: "snd (loginCall E data w) = snd (loginCall_loop E data (Urls (cli w)) 0 Response_zero None w)"
  by (simp add: loginCall_def split_beta)

lemma loginCall_err: "snd (fst (loginCall E data w)) = snd (fst (loginCall_loop E data (Urls (cli w)) 0 Response_zero None w))"
  by (simp add: loginCall_def split_beta)

lemma loginCall_new_events:
  "new_events w (snd (loginCall E data w)) = loop_events E data (Urls (cli w)) 0 Response_zero None w"
  by (simp add: loginCall_snd loop_events_def)

section \<open>The order of the login attempts\<close>


lemmas run_defs = example_defs model_defs loginCall_loop.simps Let_def new_events_def


section \<open>Lemmas: what the login loop leaves of the client\<close>

lemma swap_to_last_length [simp]: "length (swap_to_last i xs) = length xs"
  by (simp add: swap_to_last_def)


lemma swap_to_last_nth:
  "i < length xs \<Longrightarrow> j < length xs \<Longrightarrow>
     swap_to_last i xs ! j =
       (if j = length xs - 1 then xs ! i else if j = i then xs ! (length xs - 1) else xs ! j)"
  by (auto simp: swap_to_last_def nth_list_update)

lemma swap_to_last_is_move:
  assumes "i < length xs" and "length xs \<le> i + 2"
  shows "swap_to_last i xs = spec_move_to_last i xs"
proof -
  from assms consider "length xs = Suc i" | "length xs = Suc (Suc i)"
    by arith
  then show ?thesis
  proof cases
    case 1
    then show ?thesis
      by (intro nth_equalityI) (auto simp: swap_to_last_nth spec_move_to_last_def nth_append min_def)
  next
    case 2
    then show ?thesis
      by (intro nth_equalityI) (auto simp: swap_to_last_nth spec_move_to_last_def nth_append min_def)
  qed
qed

lemma loop_frame:
  "cli (snd (loginCall_loop E data rest i resp err w))
     = (cli w)\<lparr>Url := Url (cli (snd (loginCall_loop E data rest i resp err w))),
                Urls := Urls (cli (snd (loginCall_loop E data rest i resp err w)))\<rparr>
   \<and> RequestSemaphoreMap (snd (loginCall_loop E data rest i resp err w)) = RequestSemaphoreMap w
   \<and> next_sem (snd (loginCall_loop E data rest i resp err w)) = next_sem w"
proof (induction rest arbitrary: i resp err w)
  case Nil
  show ?case by simp
next
  case (Cons url rest)
  let ?w1 = "attempt_world url w"
  let ?bs = "BaseCall_events E ''POST'' ''/xx/sessions'' data ?w1"
  let ?r = "fst (BaseCall E ''POST'' ''/xx/sessions'' data ?w1)"
  let ?a = "login_address url"
  let ?w3 = "?w1\<lparr>trace := trace ?w1 @ ?bs @ [LoginConnFailure ?a]\<rparr>"
  note IH = Cons.IH [where i = "Suc i" and resp = "fst ?r" and err = "snd ?r" and w = ?w3]
  show ?case
  proof (cases "snd ?r")
    case None
    then show ?thesis by (simp add: loop_Cons Let_def attempt_world_def)
  next
    case (Some e)
    show ?thesis
    proof (cases "e = Unconnected E")
      case False
      with Some show ?thesis by (simp add: loop_Cons Let_def attempt_world_def)
    next
      case True
      have "cli ?w3 = (cli w)\<lparr>Url := ?a\<rparr>" "RequestSemaphoreMap ?w3 = RequestSemaphoreMap w"
           "next_sem ?w3 = next_sem w"
        by (simp_all add: attempt_world_def)
      with Some True IH show ?thesis
        by (simp add: loop_Cons Let_def)
    qed
  qed
qed

lemma loop_Urls:
  "Urls (cli (snd (loginCall_loop E data rest i resp err w)))
     = (if snd (fst (loginCall_loop E data rest i resp err w)) = None \<and> rest \<noteq> []
        then swap_to_last (i + length (login_tries (loop_events E data rest i resp err w)) - 1) (Urls (cli w))
        else Urls (cli w))"
proof (induction rest arbitrary: i resp err w)
  case Nil
  show ?case by simp
next
  case (Cons url rest)
  let ?w1 = "attempt_world url w"
  let ?bs = "BaseCall_events E ''POST'' ''/xx/sessions'' data ?w1"
  let ?r = "fst (BaseCall E ''POST'' ''/xx/sessions'' data ?w1)"
  let ?a = "login_address url"
  let ?w3 = "?w1\<lparr>trace := trace ?w1 @ ?bs @ [LoginConnFailure ?a]\<rparr>"
  note IH = Cons.IH [where i = "Suc i" and resp = "fst ?r" and err = "snd ?r" and w = ?w3]
  show ?case
  proof (cases "snd ?r")
    case None
    then show ?thesis by (simp add: loop_Cons loop_events_Cons Let_def attempt_world_def)
  next
    case (Some e)
    show ?thesis
    proof (cases "e = Unconnected E")
      case False
      with Some show ?thesis by (simp add: loop_Cons loop_events_Cons Let_def attempt_world_def)
    next
      case True
      have u: "Urls (cli ?w3) = Urls (cli w)" by (simp add: attempt_world_def)
      show ?thesis
      proof (cases rest)
        case Nil
        with Some True show ?thesis
          by (simp add: loop_Cons loop_events_Cons Let_def attempt_world_def)
      next
        case (Cons u' rest')
        with Some True IH u show ?thesis
          by (simp add: loop_Cons loop_events_Cons Let_def)
      qed
    qed
  qed
qed


section \<open>Lemmas: Login in three stages\<close>

lemma Login_stages:
  "Login E w =
     (case login_begin E w of
        (Inl e, w0) \<Rightarrow> (Returned (Some e), w0)
      | (Inr data, w2) \<Rightarrow>
          (case snd (fst (loginCall E (Some data) w2)) of
             Some e \<Rightarrow> (Returned (Some (''request storage failed while login, error : '' @ e)),
                         snd (loginCall E (Some data) w2))
           | None \<Rightarrow> login_end E (fst (fst (loginCall E (Some data) w2))) (snd (loginCall E (Some data) w2))))"
proof -
  obtain h herr where nh: "NewHTTPClientByBackendID E (trace w) (BackendID (cli w)) = (h, herr)"
    by fastforce
  let ?w0 = "w\<lparr>cli := (cli w)\<lparr>Client := h\<rparr>\<rparr>"
  show ?thesis
  proof (cases herr)
    case (Some e)
    with nh show ?thesis by (simp add: Login_def login_begin_def)
  next
    case None
    obtain a w1 where gp: "getRequestParams E (BackendID (cli ?w0)) ?w0 = (a, w1)"
      by fastforce
    show ?thesis
    proof (cases a)
      case (Inl e)
      with nh None gp show ?thesis by (simp add: Login_def login_begin_def)
    next
      case (Inr data)
      let ?w2 = "w1\<lparr>cli := (cli w1)\<lparr>DeviceId := [], Token := []\<rparr>\<rparr>"
      obtain r w3 where lc: "loginCall E (Some data) ?w2 = (r, w3)"
        by fastforce
      show ?thesis
      proof (cases "snd r")
        case (Some e)
        with nh None gp Inr lc show ?thesis by (simp add: Login_def login_begin_def)
      next
        case None2: None
        with nh None gp Inr lc show ?thesis
          by (simp add: Login_def login_begin_def login_end_def Let_def)
      qed
    qed
  qed
qed

lemma login_begin_frame:
  "trace (snd (login_begin E w)) = trace w"
  "RequestSemaphoreMap (snd (login_begin E w)) = RequestSemaphoreMap w"
  "next_sem (snd (login_begin E w)) = next_sem w"
  "Urls (cli (snd (login_begin E w))) = Urls (cli w)"
  by (simp_all add: login_begin_def getRequestParams_def Let_def split_beta
           split: option.splits sum.splits prod.splits)

lemma login_begin_Inr:
  "login_begin E w = (Inr data, w2) \<Longrightarrow> Token (cli w2) = [] \<and> DeviceId (cli w2) = []"
  by (auto simp: login_begin_def getRequestParams_def Let_def split_beta
           split: option.splits sum.splits prod.splits)

lemma setData_frame:
  "Urls (cli (snd (setDataFromRespData E resp w))) = Urls (cli w)"
  by (simp add: setDataFromRespData_def Let_def split_beta split: jvalue.splits)

lemma setData_ok_obj:
  "fst (setDataFromRespData E resp w) = None \<Longrightarrow> \<exists>m. Data resp = JObj m"
  by (auto simp: setDataFromRespData_def Let_def split_beta split: jvalue.splits)

lemma setData_trace:
  "trace (snd (setDataFromRespData E resp w)) = trace w @ setData_events E resp w"
  by (simp add: setDataFromRespData_def setData_events_def Let_def split_beta split: jvalue.splits)

lemma Logout_world:
  "snd (Logout E w) = w\<lparr>trace := trace w @ BaseCall_events E ''DELETE'' ''/sessions'' None w\<rparr>"
  by (simp add: Logout_def split_beta BaseCall_world split: option.splits jvalue.splits)

lemma login_end_Urls: "Urls (cli (snd (login_end E resp w))) = Urls (cli w)"
  by (simp add: login_end_def Let_def split_beta Logout_world setData_frame
           split: option.splits outcome.splits)

lemma login_end_extends: "extends w (snd (login_end E resp w))"
  by (simp add: login_end_def Let_def split_beta Logout_world setData_trace extends_def
           split: option.splits outcome.splits)

lemma login_end_tries [simp]: "login_tries (new_events w (snd (login_end E resp w))) = []"
  by (simp add: login_end_def Let_def split_beta Logout_world setData_trace new_events_def setData_events_def
           split: option.splits outcome.splits jvalue.splits)

lemma Login_extends: "extends w (snd (Login E w))"
proof (cases "login_begin E w")
  case (Pair a w2)
  have e0: "extends w w2" using login_begin_frame(1) [of E w] Pair by (simp add: extends_def)
  show ?thesis
  proof (cases a)
    case (Inl e)
    with Pair e0 show ?thesis by (simp add: Login_stages)
  next
    case (Inr data)
    have e1: "extends w (snd (loginCall E (Some data) w2))"
      using extends_trans [OF e0 loop_extends] by (simp add: loginCall_snd)
    from extends_trans [OF e1 login_end_extends] e1 Pair Inr show ?thesis
      by (simp add: Login_stages split: option.splits)
  qed
qed

section \<open>Lemmas: Login as a whole\<close>

lemma login_end_ok:
  "fst (login_end E resp w) = Returned None \<Longrightarrow> \<exists>m. Data resp = JObj m"
  using setData_ok_obj [of E resp w]
  by (auto simp: login_end_def Let_def split_beta split: option.splits outcome.splits if_splits)

lemma Login_new_events:
  "new_events w (snd (Login E w)) =
     (case login_begin E w of
        (Inl e, w0) \<Rightarrow> []
      | (Inr data, w2) \<Rightarrow>
          loop_events E (Some data) (Urls (cli w)) 0 Response_zero None w2 @
          (case snd (fst (loginCall E (Some data) w2)) of
             Some e \<Rightarrow> []
           | None \<Rightarrow> new_events (snd (loginCall E (Some data) w2))
                       (snd (login_end E (fst (fst (loginCall E (Some data) w2))) (snd (loginCall E (Some data) w2))))))"
proof (cases "login_begin E w")
  case (Pair a w2)
  have t0: "trace w2 = trace w" and u0: "Urls (cli w2) = Urls (cli w)"
    using login_begin_frame(1,4) [of E w] Pair by simp_all
  have e0: "extends w w2" and n0: "new_events w w2 = []"
    using t0 by (simp_all add: extends_def new_events_def)
  show ?thesis
  proof (cases a)
    case (Inl e)
    with Pair n0 show ?thesis by (simp add: Login_stages)
  next
    case (Inr data)
    let ?lc = "loginCall E (Some data) w2"
    have e1: "extends w2 (snd ?lc)"
      using loop_extends by (simp add: loginCall_snd)
    have n1: "new_events w (snd ?lc) = loop_events E (Some data) (Urls (cli w)) 0 Response_zero None w2"
      using new_events_trans [OF e0 e1] n0 u0 by (simp add: loginCall_new_events)
    show ?thesis
    proof (cases "snd (fst ?lc)")
      case (Some e)
      with Pair Inr n1 show ?thesis by (simp add: Login_stages)
    next
      case None
      have "new_events w (snd (login_end E (fst (fst ?lc)) (snd ?lc)))
              = new_events w (snd ?lc) @ new_events (snd ?lc) (snd (login_end E (fst (fst ?lc)) (snd ?lc)))"
        by (rule new_events_trans [OF extends_trans [OF e0 e1] login_end_extends])
      with Pair Inr None n1 show ?thesis by (simp add: Login_stages)
    qed
  qed
qed

lemma Login_tries:
  "login_tries (new_events w (snd (Login E w))) =
     (case login_begin E w of
        (Inl e, w0) \<Rightarrow> []
      | (Inr data, w2) \<Rightarrow> login_tries (loop_events E (Some data) (Urls (cli w)) 0 Response_zero None w2))"
  by (simp add: Login_new_events split: prod.splits sum.splits option.splits)

lemma Login_Urls:
  "Urls (cli (snd (Login E w))) =
     (case login_begin E w of
        (Inl e, w0) \<Rightarrow> Urls (cli w)
      | (Inr data, w2) \<Rightarrow> Urls (cli (snd (loginCall_loop E (Some data) (Urls (cli w)) 0 Response_zero None w2))))"
proof (cases "login_begin E w")
  case (Pair a w2)
  have u0: "Urls (cli w2) = Urls (cli w)"
    using login_begin_frame(4) [of E w] Pair by simp
  from Pair u0 show ?thesis
    by (simp add: Login_stages login_end_Urls loginCall_snd split: sum.splits option.splits)
qed

lemma Login_ok_stages:
  assumes "fst (Login E w) = Returned None"
  obtains data w2 where "login_begin E w = (Inr data, w2)"
    and "snd (fst (loginCall_loop E (Some data) (Urls (cli w)) 0 Response_zero None w2)) = None"
    and "Urls (cli w) \<noteq> []"
proof (cases "login_begin E w")
  case (Pair a w2)
  have u0: "Urls (cli w2) = Urls (cli w)"
    using login_begin_frame(4) [of E w] Pair by simp
  show ?thesis
  proof (cases a)
    case (Inl e)
    with Pair assms show ?thesis by (simp add: Login_stages)
  next
    case (Inr data)
    let ?lc = "loginCall E (Some data) w2"
    from assms Pair Inr have none: "snd (fst ?lc) = None"
      and ok: "fst (login_end E (fst (fst ?lc)) (snd ?lc)) = Returned None"
      by (auto simp: Login_stages split: option.splits)
    from login_end_ok [OF ok] obtain m where m: "Data (fst (fst ?lc)) = JObj m" ..
    have "Urls (cli w) \<noteq> []"
    proof
      assume "Urls (cli w) = []"
      with u0 have "fst ?lc = (Response_zero, None)"
        by (simp add: loginCall_def)
      with m show False by (simp add: Response_zero_def)
    qed
    with that [OF Pair [unfolded Inr]] none u0 show ?thesis
      by (simp add: loginCall_err)
  qed
qed

section \<open>The exchange of the address that answered\<close>

text \<open>
  C2 (as the code has it). After a successful \<open>Login\<close> the address that answered, at
  index \<open>i\<close> (the last one tried), has been exchanged with the address in the final
  slot: it is in the final slot, the address that was last is at index \<open>i\<close>, and every
  other address is where it was. The remaining addresses keep their relative order
  when \<open>i\<close> is one of the last two indexes, as in \<open>[u1,u2,u3]\<close> with \<open>u2\<close> succeeding,
  which gives \<open>[u1,u3,u2]\<close>.
\<close>

theorem Login_success_exchanges:
  assumes "fst (Login E w) = Returned None"
  shows "let urls = Urls (cli w); urls' = Urls (cli (snd (Login E w))); n = length urls;
             i = length (login_tries (new_events w (snd (Login E w)))) - 1
         in i < n
            \<and> login_tries (new_events w (snd (Login E w))) = map login_address (take (Suc i) urls)
            \<and> urls' = swap_to_last i urls
            \<and> length urls' = n \<and> urls' ! (n - 1) = urls ! i \<and> urls' ! i = urls ! (n - 1)
            \<and> (\<forall>j<n. j \<noteq> i \<and> j \<noteq> n - 1 \<longrightarrow> urls' ! j = urls ! j)
            \<and> (n \<le> i + 2 \<longrightarrow> urls' = spec_move_to_last i urls)"
proof -
  from assms obtain data w2 where lb: "login_begin E w = (Inr data, w2)"
    and none: "snd (fst (loginCall_loop E (Some data) (Urls (cli w)) 0 Response_zero None w2)) = None"
    and ne: "Urls (cli w) \<noteq> []"
    by (rule Login_ok_stages)
  have u0: "Urls (cli w2) = Urls (cli w)"
    using login_begin_frame(4) [of E w] lb by simp
  let ?es = "loop_events E (Some data) (Urls (cli w)) 0 Response_zero None w2"
  let ?k = "length (login_tries ?es)"
  note f = loop_facts [of E "Some data" "Urls (cli w)" 0 Response_zero None w2]
  from f none ne have k1: "Suc (length (conn_failures ?es)) = ?k"
    by auto
  from f have "?k = length (take ?k (map login_address (Urls (cli w))))"
    by simp
  then have kn: "?k \<le> length (Urls (cli w))"
    by simp
  from k1 kn have i: "?k - 1 < length (Urls (cli w))"
    by arith
  have tries: "login_tries (new_events w (snd (Login E w))) = login_tries ?es"
    using lb by (simp add: Login_tries)
  have urls': "Urls (cli (snd (Login E w))) = swap_to_last (?k - 1) (Urls (cli w))"
    using lb none ne u0 loop_Urls [of E "Some data" "Urls (cli w)" 0 Response_zero None w2]
    by (simp add: Login_Urls)
  from k1 have sk: "Suc (?k - 1) = ?k"
    by arith
  from f have "login_tries ?es = take ?k (map login_address (Urls (cli w)))"
    by blast
  then have pre: "login_tries ?es = map login_address (take (Suc (?k - 1)) (Urls (cli w)))"
    unfolding sk by (simp only: take_map)
  show ?thesis
    using i pre urls' swap_to_last_is_move [OF i]
    by (simp add: Let_def tries swap_to_last_nth)
qed

theorem Login_success_exchanges_witness:
  "fst (Login u2_answers three_urls) = Returned None
   \<and> Urls (cli (snd (Login u2_answers three_urls))) = [''u1'', ''u3'', ''u2'']
   \<and> Urls (cli (snd (Login u2_answers three_urls))) = spec_move_to_last 1 [''u1'', ''u2'', ''u3'']"
proof -
  have ok: "fst (Login u2_answers three_urls) = Returned None"
    by (simp add: u2_answers_def three_urls_def run_defs)
  have tries: "length (login_tries (new_events three_urls (snd (Login u2_answers three_urls)))) = 2"
    by (simp add: u2_answers_def three_urls_def run_defs)
  have urls: "Urls (cli three_urls) = [''u1'', ''u2'', ''u3'']"
    by (simp add: three_urls_def example_defs)
  from Login_success_exchanges [OF ok] tries urls
  have "Urls (cli (snd (Login u2_answers three_urls))) = swap_to_last 1 [''u1'', ''u2'', ''u3'']"
   and "Urls (cli (snd (Login u2_answers three_urls))) = spec_move_to_last 1 [''u1'', ''u2'', ''u3'']"
    by (simp_all add: Let_def swap_to_last_def spec_move_to_last_def)
  with ok show ?thesis
    by (simp add: swap_to_last_def spec_move_to_last_def)
qed

theorem Login_move_to_last_counterexample:
  "fst (Login u1_answers three_urls) = Returned None
   \<and> login_tries (new_events three_urls (snd (Login u1_answers three_urls))) = [''u1/deviceManager/rest'']
   \<and> Urls (cli three_urls) = [''u1'', ''u2'', ''u3'']
   \<and> Urls (cli (snd (Login u1_answers three_urls))) = [''u3'', ''u2'', ''u1'']
   \<and> spec_move_to_last 0 (Urls (cli three_urls)) = [''u2'', ''u3'', ''u1'']
   \<and> Urls (cli (snd (Login u1_answers three_urls))) \<noteq> spec_move_to_last 0 (Urls (cli three_urls))"
  by (simp add: u1_answers_def three_urls_def run_defs spec_move_to_last_def)


section \<open>What Login leaves of the address list\<close>




section \<open>Lemmas: the requests of Login\<close>

lemma login_end_sent:
  "q \<in> set (sent_requests (new_events w (snd (login_end E resp w)))) \<Longrightarrow> Method q = ''DELETE''"
  by (auto simp: login_end_def Let_def split_beta Logout_world setData_trace new_events_def setData_events_def
           dest!: BaseCall_events_sent GetRequest_Method
           split: option.splits outcome.splits jvalue.splits if_splits)

lemma loop_sent_no_token:
  assumes "q \<in> set (sent_requests (loop_events E data rest i resp err w))" and "Token (cli w) = []"
  shows "Header_Get q ''iBaseToken'' = None"
proof -
  from loop_sent [OF assms(1)] obtain u
    where "GetRequest E ((cli w)\<lparr>Url := login_address u\<rparr>) ''POST'' ''/xx/sessions'' data = Inr q"
    by blast
  from GetRequest_headers_aux(3) [OF this] assms(2) show ?thesis by simp
qed

section \<open>The headers of a request\<close>

text \<open>
  C7 (as the code has it). Every request built by \<open>GetRequest\<close> carries
  \<open>Connection: keep-alive\<close> and \<open>Content-Type: application/json\<close>, and carries the
  \<open>iBaseToken\<close> header, with the session token as its value, if and only if the session
  token is non-empty. \<open>Login\<close> clears the token before it tries the addresses, so the
  header is absent on every login request (the POST requests a \<open>Login\<close> sends), on the
  first login and on every later one; it is present on every request built while the
  session holds a non-empty token.
\<close>

theorem GetRequest_headers:
  "(GetRequest E c method url data = Inr req \<longrightarrow>
      Header_Get req ''Connection'' = Some ''keep-alive''
      \<and> Header_Get req ''Content-Type'' = Some ''application/json''
      \<and> Header_Get req ''iBaseToken'' = (if Token c \<noteq> [] then Some (Token c) else None))
   \<and> (\<forall>q \<in> set (sent_requests (new_events w (snd (Login E w)))).
         Method q = ''POST'' \<longrightarrow> Header_Get q ''iBaseToken'' = None)"
proof -
  have posts: "\<forall>q \<in> set (sent_requests (new_events w (snd (Login E w)))).
         Method q = ''POST'' \<longrightarrow> Header_Get q ''iBaseToken'' = None"
  proof (intro ballI impI)
    fix q assume q: "q \<in> set (sent_requests (new_events w (snd (Login E w))))" and m: "Method q = ''POST''"
    show "Header_Get q ''iBaseToken'' = None"
    proof (cases "login_begin E w")
      case (Pair a w2)
      show ?thesis
      proof (cases a)
        case (Inl e)
        with Pair q show ?thesis by (simp add: Login_new_events)
      next
        case (Inr data')
        from login_begin_Inr [OF Pair [unfolded Inr]] have tok: "Token (cli w2) = []"
          by simp
        let ?lc = "loginCall E (Some data') w2"
        from q Pair Inr
        consider "q \<in> set (sent_requests (loop_events E (Some data') (Urls (cli w)) 0 Response_zero None w2))"
          | "q \<in> set (sent_requests (new_events (snd ?lc) (snd (login_end E (fst (fst ?lc)) (snd ?lc)))))"
          by (auto simp: Login_new_events split: option.splits)
        then show ?thesis
        proof cases
          case 1
          from loop_sent_no_token [OF 1 tok] show ?thesis .
        next
          case 2
          from login_end_sent [OF 2] m show ?thesis by simp
        qed
      qed
    qed
  qed
  with GetRequest_headers_aux [of E c "method" "url" data req] show ?thesis
    by blast
qed

theorem GetRequest_headers_witness:
  "GetRequest u1_answers (cli (snd (Login u1_answers one_url))) ''GET'' ''/lun'' None
     = Inr \<lparr>Method = ''GET'', URL = ''u1/deviceManager/rest/SN1/lun'',
            Header = [(''iBaseToken'', ''T1''), (''Content-Type'', ''application/json''),
                      (''Connection'', ''keep-alive'')],
            Body = None\<rparr>
   \<and> Header_Get \<lparr>Method = ''GET'', URL = ''u1/deviceManager/rest/SN1/lun'',
            Header = [(''iBaseToken'', ''T1''), (''Content-Type'', ''application/json''),
                      (''Connection'', ''keep-alive'')],
            Body = None\<rparr> ''iBaseToken'' = Some ''T1''
   \<and> map Method (sent_requests (new_events one_url (snd (Login u1_answers one_url)))) = [''POST'']
   \<and> token_headers (new_events one_url (snd (Login u1_answers one_url))) = [None]"
proof -
  let ?R = "\<lparr>Method = ''GET'', URL = ''u1/deviceManager/rest/SN1/lun'',
            Header = [(''iBaseToken'', ''T1''), (''Content-Type'', ''application/json''),
                      (''Connection'', ''keep-alive'')],
            Body = None\<rparr>"
  have g: "GetRequest u1_answers (cli (snd (Login u1_answers one_url))) ''GET'' ''/lun'' None = Inr ?R"
    and t: "Token (cli (snd (Login u1_answers one_url))) = ''T1''"
    by (simp_all add: u1_answers_def one_url_def run_defs)
  have s: "\<exists>q. sent_requests (new_events one_url (snd (Login u1_answers one_url))) = [q] \<and> Method q = ''POST''"
    by (simp add: u1_answers_def one_url_def run_defs)
  then obtain q where q: "sent_requests (new_events one_url (snd (Login u1_answers one_url))) = [q]"
    and m: "Method q = ''POST''"
    by blast
  from GetRequest_headers [of u1_answers "cli (snd (Login u1_answers one_url))" "''GET''" "''/lun''" None ?R
      one_url] g t q m
  have "Header_Get ?R ''iBaseToken'' = Some ''T1''" and "Header_Get q ''iBaseToken'' = None"
    by simp_all
  with g q m show ?thesis
    by (simp add: token_headers_def)
qed

theorem relogin_request_without_token_counterexample:
  "fst (Login u1_answers one_url) = Returned None
   \<and> Token (cli (snd (Login u1_answers one_url))) = ''T1''
   \<and> map Method (sent_requests (new_events (snd (Login u1_answers one_url))
                     (snd (Login u1_answers (snd (Login u1_answers one_url)))))) = [''POST'']
   \<and> token_headers (new_events (snd (Login u1_answers one_url))
                     (snd (Login u1_answers (snd (Login u1_answers one_url))))) = [None]"
  by (simp add: u1_answers_def one_url_def run_defs trace_defs)

section \<open>Lemmas: Logout and ReLogin\<close>

lemma logged_in_eval:
  "logged_in = \<lparr>cli = \<lparr>Client = Some 7, Url = ''u1/deviceManager/rest'', Urls = [''u1''], VStoreID = ''0'',
        VStoreName = ''System_vStore'', User = ''admin'', SecretNamespace = ''ns'', SecretName = ''secret'',
        StorageVersion = [], BackendID = ''backend-1'', Storage = ''oceanstor-san'', DeviceId = ''SN1'',
        Token = ''T1'', SystemInfoRefreshing = 0, RequestSemaphore = Some \<lparr>sem_id = 0, permits = 30\<rparr>\<rparr>,
      RequestSemaphoreMap = \<lparr>uninitialized = \<lparr>sem_id = 1, permits = 100\<rparr>,
                              devices = [''SN1'' \<mapsto> \<lparr>sem_id = 2, permits = 100\<rparr>]\<rparr>,
      next_sem = 3,
      trace = [TryLogin ''u1/deviceManager/rest'', Acquire \<lparr>sem_id = 0, permits = 30\<rparr>,
               Acquire \<lparr>sem_id = 1, permits = 100\<rparr>,
               Sent 7 \<lparr>Method = ''POST'', URL = ''u1/deviceManager/rest/xx/sessions'',
                        Header = [(''Content-Type'', ''application/json''), (''Connection'', ''keep-alive'')],
                        Body = Some ''{}''\<rparr> login_ok,
               Release \<lparr>sem_id = 1, permits = 100\<rparr>, Release \<lparr>sem_id = 0, permits = 30\<rparr>,
               NewSemaphore ''SN1'' \<lparr>sem_id = 2, permits = 100\<rparr>]\<rparr>"
  by (simp add: logged_in_def u1_session_def one_url_def logout_ok_def run_defs)

lemma Logout_Urls: "Urls (cli (snd (Logout E w))) = Urls (cli w)"
  by (simp add: Logout_world)

lemma Logout_extends: "extends w (snd (Logout E w))"
  by (simp add: Logout_world extends_def)

lemma Logout_new_events: "new_events w (snd (Logout E w)) = BaseCall_events E ''DELETE'' ''/sessions'' None w"
  by (simp add: Logout_world new_events_def)

lemma Logout_sent:
  assumes "q \<in> set (sent_requests (new_events w (snd (Logout E w))))"
  shows "Method q = ''DELETE'' \<and> Header_Get q ''iBaseToken'' = (if Token (cli w) \<noteq> [] then Some (Token (cli w)) else None)"
proof -
  from assms have "GetRequest E (cli w) ''DELETE'' ''/sessions'' None = Inr q"
    by (auto simp: Logout_new_events dest: BaseCall_events_sent)
  from GetRequest_Method [OF this] GetRequest_headers_aux(3) [OF this] show ?thesis by simp
qed

section \<open>Logout on a reply without a code\<close>

text \<open>
  C9. The claim is that \<open>Logout\<close> never panics, whatever the logout request comes to.
  In the code the business code is read with the unchecked type assertion
  \<open>resp.Error["code"].(float64)\<close>: when the reply decodes to an envelope whose
  \<open>error\<close> has no numeric \<open>code\<close> (here the body \<open>{"data":{}}\<close>), \<open>Logout\<close> panics.
\<close>

theorem Logout_panics_without_code:
  "fst (Logout logout_without_code logged_in) = Panicked"
  by (simp add: logged_in_eval)
     (simp add: logout_without_code_def example_env_def net_by_url_def model_defs Let_def)

section \<open>The branches of ReLogin\<close>

text \<open>
  C5. \<open>ReLogin\<close> reads the token, then takes the relogin lock. If the token it finds
  then is non-empty and differs from the one read on entry, it returns success and
  adds nothing to the trace: no request is sent. Otherwise, if a token is present, it
  runs \<open>Logout\<close> first (the only requests of that step are DELETE requests carrying
  that token) and then \<open>Login\<close> on the world \<open>Logout\<close> left, whose address list is the
  one \<open>ReLogin\<close> found; the events of \<open>Logout\<close> precede those of \<open>Login\<close>. (Should
  \<open>Logout\<close> panic, as under C9, the panic is \<open>ReLogin\<close>'s.) With no token it runs
  \<open>Login\<close> alone.
\<close>

theorem ReLogin_branches:
  "(Token (others (cli w)) \<noteq> [] \<and> Token (cli w) \<noteq> Token (others (cli w)) \<longrightarrow>
      ReLogin E others w = (Returned None, w\<lparr>cli := others (cli w)\<rparr>)
      \<and> new_events w (snd (ReLogin E others w)) = [])
   \<and> (Token (others (cli w)) \<noteq> [] \<and> Token (cli w) = Token (others (cli w)) \<longrightarrow>
      ReLogin E others w =
        (case Logout E (w\<lparr>cli := others (cli w)\<rparr>) of
           (Panicked, w2) \<Rightarrow> (Panicked, w2)
         | (Returned u, w2) \<Rightarrow> Login E w2)
      \<and> Urls (cli (snd (Logout E (w\<lparr>cli := others (cli w)\<rparr>)))) = Urls (others (cli w))
      \<and> (\<forall>q \<in> set (sent_requests (new_events w (snd (Logout E (w\<lparr>cli := others (cli w)\<rparr>))))).
            Method q = ''DELETE'' \<and> Header_Get q ''iBaseToken'' = Some (Token (cli w)))
      \<and> new_events w (snd (ReLogin E others w)) =
          new_events w (snd (Logout E (w\<lparr>cli := others (cli w)\<rparr>))) @
          (case fst (Logout E (w\<lparr>cli := others (cli w)\<rparr>)) of
             Panicked \<Rightarrow> []
           | Returned u \<Rightarrow> new_events (snd (Logout E (w\<lparr>cli := others (cli w)\<rparr>)))
                             (snd (Login E (snd (Logout E (w\<lparr>cli := others (cli w)\<rparr>)))))))
   \<and> (Token (others (cli w)) = [] \<longrightarrow> ReLogin E others w = Login E (w\<lparr>cli := others (cli w)\<rparr>))"
proof -
  let ?w1 = "w\<lparr>cli := others (cli w)\<rparr>"
  let ?lo = "Logout E ?w1"
  have a: "Token (others (cli w)) \<noteq> [] \<and> Token (cli w) \<noteq> Token (others (cli w)) \<longrightarrow>
      ReLogin E others w = (Returned None, ?w1) \<and> new_events w (snd (ReLogin E others w)) = []"
    by (simp add: ReLogin_def Let_def)
  have c: "Token (others (cli w)) = [] \<longrightarrow> ReLogin E others w = Login E ?w1"
    by (simp add: ReLogin_def Let_def)
  have b1: "Token (others (cli w)) \<noteq> [] \<and> Token (cli w) = Token (others (cli w)) \<longrightarrow>
      ReLogin E others w = (case ?lo of (Panicked, w2) \<Rightarrow> (Panicked, w2) | (Returned u, w2) \<Rightarrow> Login E w2)"
    by (simp add: ReLogin_def Let_def)
  have b2: "Urls (cli (snd ?lo)) = Urls (others (cli w))"
    by (simp add: Logout_Urls)
  have b3: "Token (others (cli w)) \<noteq> [] \<and> Token (cli w) = Token (others (cli w)) \<longrightarrow>
      (\<forall>q \<in> set (sent_requests (new_events w (snd ?lo))).
            Method q = ''DELETE'' \<and> Header_Get q ''iBaseToken'' = Some (Token (cli w)))"
    using Logout_sent [of _ ?w1 E] by auto
  have e1: "extends w (snd ?lo)"
    using Logout_extends [of ?w1 E] by simp
  have b4: "Token (others (cli w)) \<noteq> [] \<and> Token (cli w) = Token (others (cli w)) \<longrightarrow>
      new_events w (snd (ReLogin E others w)) =
          new_events w (snd ?lo) @
          (case fst ?lo of Panicked \<Rightarrow> []
           | Returned u \<Rightarrow> new_events (snd ?lo) (snd (Login E (snd ?lo))))"
  proof
    assume t: "Token (others (cli w)) \<noteq> [] \<and> Token (cli w) = Token (others (cli w))"
    show "new_events w (snd (ReLogin E others w)) =
          new_events w (snd ?lo) @
          (case fst ?lo of Panicked \<Rightarrow> []
           | Returned u \<Rightarrow> new_events (snd ?lo) (snd (Login E (snd ?lo))))"
    proof (cases "fst ?lo")
      case Panicked
      with t b1 show ?thesis by (simp add: split_beta)
    next
      case (Returned u)
      with t b1 have "snd (ReLogin E others w) = snd (Login E (snd ?lo))"
        by (simp add: split_beta)
      with new_events_trans [OF e1 Login_extends, of E] Returned show ?thesis
        by simp
    qed
  qed
  from a b1 b2 b3 b4 c show ?thesis by blast
qed

theorem ReLogin_branches_witness:
  "fst (ReLogin u1_session relogged_elsewhere logged_in) = Returned None
   \<and> new_events logged_in (snd (ReLogin u1_session relogged_elsewhere logged_in)) = []
   \<and> fst (ReLogin u1_session nobody_else logged_in) = Returned None
   \<and> map Method (sent_requests (new_events logged_in (snd (ReLogin u1_session nobody_else logged_in))))
        = [''DELETE'', ''POST'']
   \<and> token_headers (new_events logged_in (snd (ReLogin u1_session nobody_else logged_in)))
        = [Some ''T1'', None]
   \<and> ReLogin u1_session nobody_else one_url = Login u1_session one_url"
proof -
  have a: "Token (relogged_elsewhere (cli logged_in)) \<noteq> []"
          "Token (cli logged_in) \<noteq> Token (relogged_elsewhere (cli logged_in))"
    by (simp_all add: logged_in_eval relogged_elsewhere_def)
  have c: "Token (nobody_else (cli one_url)) = []" "one_url\<lparr>cli := nobody_else (cli one_url)\<rparr> = one_url"
    by (simp_all add: one_url_def nobody_else_def example_defs)
  have b: "Token (nobody_else (cli logged_in)) \<noteq> []" "Token (cli logged_in) = Token (nobody_else (cli logged_in))"
          "logged_in\<lparr>cli := nobody_else (cli logged_in)\<rparr> = logged_in"
    by (simp_all add: logged_in_eval nobody_else_def)
  have lo: "fst (Logout u1_session logged_in) = Returned ()"
    and lo_sent: "map Method (sent_requests (new_events logged_in (snd (Logout u1_session logged_in)))) = [''DELETE'']"
                 "token_headers (new_events logged_in (snd (Logout u1_session logged_in))) = [Some ''T1'']"
    by (simp_all add: logged_in_eval)
       (simp_all add: u1_session_def logout_ok_def run_defs trace_defs)
  have li: "fst (Login u1_session (snd (Logout u1_session logged_in))) = Returned None"
    and li_sent: "map Method (sent_requests (new_events (snd (Logout u1_session logged_in))
                     (snd (Login u1_session (snd (Logout u1_session logged_in)))))) = [''POST'']"
                 "token_headers (new_events (snd (Logout u1_session logged_in))
                     (snd (Login u1_session (snd (Logout u1_session logged_in))))) = [None]"
    by (simp_all add: logged_in_eval)
       (simp_all add: u1_session_def logout_ok_def run_defs trace_defs)
  from ReLogin_branches [of relogged_elsewhere logged_in u1_session] a
  have A: "fst (ReLogin u1_session relogged_elsewhere logged_in) = Returned None"
          "new_events logged_in (snd (ReLogin u1_session relogged_elsewhere logged_in)) = []"
    by simp_all
  from b have pre: "Token (nobody_else (cli logged_in)) \<noteq> []
                    \<and> Token (cli logged_in) = Token (nobody_else (cli logged_in))"
    by simp
  note X = ReLogin_branches [of nobody_else logged_in u1_session, THEN conjunct2, THEN conjunct1,
                             THEN mp, OF pre, unfolded b(3)]
  have B1: "ReLogin u1_session nobody_else logged_in = Login u1_session (snd (Logout u1_session logged_in))"
    using X [THEN conjunct1] lo by (simp add: split_beta)
  have B2: "new_events logged_in (snd (ReLogin u1_session nobody_else logged_in)) =
             new_events logged_in (snd (Logout u1_session logged_in)) @
             new_events (snd (Logout u1_session logged_in)) (snd (Login u1_session (snd (Logout u1_session logged_in))))"
    using X [THEN conjunct2, THEN conjunct2, THEN conjunct2] lo by simp
  note B = B1 B2
  from ReLogin_branches [of nobody_else one_url u1_session] c
  have C: "ReLogin u1_session nobody_else one_url = Login u1_session one_url"
    by simp
  from A B C li lo_sent li_sent show ?thesis
    by (simp add: token_headers_def)
qed

section \<open>Lemmas: the permit registry\<close>

lemma created_for_append [simp]:
  "created_for sn (xs @ ys) = created_for sn xs @ created_for sn ys"
  by (simp add: created_for_def)

lemma created_for_Nil [simp]: "created_for sn [] = []"
  by (simp add: created_for_def)

lemma created_for_none: "created_permits es = [] \<Longrightarrow> created_for sn es = []"
  by (simp add: created_for_def)

lemma permits_kept_unchanged:
  "extends w w' \<Longrightarrow> RequestSemaphoreMap w' = RequestSemaphoreMap w \<Longrightarrow>
     created_permits (new_events w w') = [] \<Longrightarrow> permits_kept E w w'"
  by (simp add: permits_kept_def created_for_none)

lemma permits_kept_refl [simp]: "permits_kept E w w"
  by (simp add: permits_kept_unchanged)

lemma permits_kept_cli [simp]:
  "permits_kept E (w\<lparr>cli := c\<rparr>) w' = permits_kept E w w'"
  "permits_kept E w (w'\<lparr>cli := c\<rparr>) = permits_kept E w w'"
  by (simp_all add: permits_kept_def)

lemma permits_kept_trans:
  assumes a: "permits_kept E w w'" and b: "permits_kept E w' w''"
  shows "permits_kept E w w''"
proof -
  from a b have e: "extends w w'" "extends w' w''"
    by (simp_all add: permits_kept_def)
  note n = new_events_trans [OF e]
  have keep: "\<forall>sn p. RequestSemaphoreMap_get E (RequestSemaphoreMap w) sn = Some p
                 \<longrightarrow> RequestSemaphoreMap_get E (RequestSemaphoreMap w'') sn = Some p"
    using a b by (simp add: permits_kept_def)
  have once: "length (created_for sn (new_events w w''))
                 \<le> (if RequestSemaphoreMap_get E (RequestSemaphoreMap w) sn = None then 1 else 0)" for sn
  proof (cases "created_for sn (new_events w w') = []")
    case True
    show ?thesis
    proof (cases "RequestSemaphoreMap_get E (RequestSemaphoreMap w) sn")
      case None
      from b have "length (created_for sn (new_events w' w'')) \<le> 1"
        by (auto simp: permits_kept_def split: if_splits dest: spec [where x = sn])
      with True None show ?thesis by (simp add: n)
    next
      case (Some p)
      with a have "RequestSemaphoreMap_get E (RequestSemaphoreMap w') sn = Some p"
        by (simp add: permits_kept_def)
      with b have "length (created_for sn (new_events w' w'')) \<le> 0"
        by (auto simp: permits_kept_def split: if_splits dest: spec [where x = sn])
      with True Some show ?thesis by (simp add: n)
    qed
  next
    case False
    with a have r: "RequestSemaphoreMap_get E (RequestSemaphoreMap w') sn \<noteq> None"
      by (simp add: permits_kept_def)
    with b have z: "created_for sn (new_events w' w'') = []"
      by (auto simp: permits_kept_def split: if_splits dest: spec [where x = sn])
    from a have "length (created_for sn (new_events w w'))
                 \<le> (if RequestSemaphoreMap_get E (RequestSemaphoreMap w) sn = None then 1 else 0)"
      by (simp add: permits_kept_def)
    with z show ?thesis by (simp add: n)
  qed
  have reg: "created_for sn (new_events w w'') \<noteq> []
                 \<longrightarrow> RequestSemaphoreMap_get E (RequestSemaphoreMap w'') sn \<noteq> None" for sn
  proof
    assume c: "created_for sn (new_events w w'') \<noteq> []"
    show "RequestSemaphoreMap_get E (RequestSemaphoreMap w'') sn \<noteq> None"
    proof (cases "created_for sn (new_events w w') = []")
      case True
      with c have "created_for sn (new_events w' w'') \<noteq> []" by (simp add: n)
      with b show ?thesis by (simp add: permits_kept_def)
    next
      case False
      with a have "RequestSemaphoreMap_get E (RequestSemaphoreMap w') sn \<noteq> None"
        by (simp add: permits_kept_def)
      with b show ?thesis by (auto simp: permits_kept_def)
    qed
  qed
  have cap: "\<forall>ks \<in> set (created_permits (new_events w w'')). permits (snd ks) = MaxStorageThreads E"
    using a b by (auto simp: permits_kept_def n)
  from extends_trans [OF e] keep once reg cap show ?thesis
    unfolding permits_kept_def by blast
qed

lemma permits_kept_log:
  assumes "permits_kept E w w'" and "created_permits es = []"
  shows "permits_kept E w (w'\<lparr>trace := trace w' @ es\<rparr>)"
proof -
  have "permits_kept E w' (w'\<lparr>trace := trace w' @ es\<rparr>)"
    using assms(2) by (intro permits_kept_unchanged) (simp_all add: extends_def new_events_def)
  from permits_kept_trans [OF assms(1) this] show ?thesis .
qed

lemma get_after_set:
  "RequestSemaphoreMap_get E R k = None \<Longrightarrow>
     RequestSemaphoreMap_get E (RequestSemaphoreMap_set E R k s) sn
       = (if sn = k then Some s else RequestSemaphoreMap_get E R sn)"
  by (auto simp: RequestSemaphoreMap_get_def RequestSemaphoreMap_set_def split: if_splits)

lemma setData_permits: "permits_kept E w (snd (setDataFromRespData E resp w))"
  unfolding permits_kept_def
  by (auto simp: setDataFromRespData_def Let_def split_beta extends_def new_events_def get_after_set
                 created_for_def
           split: jvalue.splits if_splits)

lemma BaseCall_permits: "permits_kept E w (snd (BaseCall E method url data w))"
  by (rule permits_kept_unchanged) (simp_all add: BaseCall_extends BaseCall_new_events, simp add: BaseCall_world)

lemma Logout_permits: "permits_kept E w (snd (Logout E w))"
  by (rule permits_kept_unchanged) (simp_all add: Logout_extends Logout_new_events, simp add: Logout_world)

lemma loop_permits: "permits_kept E w (snd (loginCall_loop E data rest i resp err w))"
  using loop_facts [of E data rest i resp err w] loop_frame [of E data rest i resp err w]
  by (intro permits_kept_unchanged) (simp_all add: loop_extends loop_events_def)

lemma login_begin_permits: "permits_kept E w (snd (login_begin E w))"
  using login_begin_frame [of E w]
  by (intro permits_kept_unchanged) (simp_all add: extends_def new_events_def)

lemma login_end_permits: "permits_kept E w (snd (login_end E resp w))"
proof -
  note sd = setData_permits [of E w resp]
  note lo = permits_kept_trans [OF sd Logout_permits]
  show ?thesis
    using sd permits_kept_log [OF lo, of "[SetOnlineStatus b False]" for b]
          permits_kept_log [OF permits_kept_refl, of "[SetOnlineStatus b False]" E w for b]
    by (simp add: login_end_def Let_def split_beta lo split: option.splits outcome.splits)
qed

lemma Login_permits: "permits_kept E w (snd (Login E w))"
proof (cases "login_begin E w")
  case (Pair a w2)
  have p0: "permits_kept E w w2"
    using login_begin_permits [of E w] Pair by simp
  show ?thesis
  proof (cases a)
    case (Inl e)
    with Pair p0 show ?thesis by (simp add: Login_stages)
  next
    case (Inr data)
    let ?lc = "loginCall E (Some data) w2"
    have p1: "permits_kept E w (snd ?lc)"
      using permits_kept_trans [OF p0 loop_permits] by (simp add: loginCall_snd)
    from permits_kept_trans [OF p1 login_end_permits] p1 Pair Inr show ?thesis
      by (simp add: Login_stages split: option.splits)
  qed
qed

lemma ReLogin_permits: "permits_kept E w (snd (ReLogin E others w))"
proof -
  let ?w1 = "w\<lparr>cli := others (cli w)\<rparr>"
  have l: "permits_kept E w (snd (Logout E ?w1))"
    using Logout_permits [of E ?w1] by simp
  have li: "permits_kept E w (snd (Login E ?w1))"
    using Login_permits [of E ?w1] by simp
  from permits_kept_trans [OF l Login_permits] l li show ?thesis
    by (simp add: ReLogin_def Let_def split_beta split: outcome.splits)
qed

lemma run_ops_permits: "permits_kept E w (run_ops E ops w)"
proof (induction ops arbitrary: w)
  case Nil
  show ?case by simp
next
  case (Cons op ops)
  show ?case
  proof (cases op)
    case OpLogin
    with permits_kept_trans [OF Login_permits Cons.IH, of w] Login_permits [of E w] show ?thesis
      by (simp add: split_beta split: outcome.splits)
  next
    case (OpReLogin others)
    with permits_kept_trans [OF ReLogin_permits Cons.IH, of w others] ReLogin_permits [of E w others]
    show ?thesis
      by (simp add: split_beta split: outcome.splits)
  qed
qed

lemma setData_registers:
  "fst (setDataFromRespData E resp w) = None \<Longrightarrow>
     RequestSemaphoreMap_get E (RequestSemaphoreMap (snd (setDataFromRespData E resp w)))
       (DeviceId (cli (snd (setDataFromRespData E resp w)))) \<noteq> None"
  by (auto simp: setDataFromRespData_def Let_def split_beta get_after_set
           split: jvalue.splits if_splits)

lemma login_end_registers:
  "fst (login_end E resp w) = Returned None \<Longrightarrow>
     RequestSemaphoreMap_get E (RequestSemaphoreMap (snd (login_end E resp w)))
       (DeviceId (cli (snd (login_end E resp w)))) \<noteq> None"
  using setData_registers [of E resp w]
  by (auto simp: login_end_def Let_def split_beta split: option.splits outcome.splits if_splits)

lemma Login_registers:
  assumes "fst (Login E w) = Returned None"
  shows "RequestSemaphoreMap_get E (RequestSemaphoreMap (snd (Login E w))) (DeviceId (cli (snd (Login E w)))) \<noteq> None"
proof (cases "login_begin E w")
  case (Pair a w2)
  show ?thesis
  proof (cases a)
    case (Inl e)
    with Pair assms show ?thesis by (simp add: Login_stages)
  next
    case (Inr data)
    let ?lc = "loginCall E (Some data) w2"
    from assms Pair Inr have none: "snd (fst ?lc) = None"
      and ok: "fst (login_end E (fst (fst ?lc)) (snd ?lc)) = Returned None"
      by (auto simp: Login_stages split: option.splits)
    from login_end_registers [OF ok] Pair Inr none show ?thesis
      by (simp add: Login_stages)
  qed
qed

section \<open>Permits are created once\<close>

text \<open>
  C10. Across any sequence of \<open>Login\<close> and \<open>ReLogin\<close> operations on a client (run one
  after the other; each \<open>ReLogin\<close> with whatever other contexts did to the client while
  it waited): a permit that is registered for a serial number when the sequence starts
  is still the registered one when it ends, the same object with the same capacity,
  and none is created for that serial number; for every serial number at most one
  permit is created; every permit created has the fixed capacity \<open>MaxStorageThreads\<close>.
  After a successful \<open>Login\<close> a permit is registered for the device serial number the
  login returned. A single \<open>Login\<close> is the sequence of length one.
\<close>

theorem permits_created_once:
  "(\<forall>sn p. RequestSemaphoreMap_get E (RequestSemaphoreMap w) sn = Some p \<longrightarrow>
       RequestSemaphoreMap_get E (RequestSemaphoreMap (run_ops E ops w)) sn = Some p
       \<and> created_for sn (new_events w (run_ops E ops w)) = [])
   \<and> (\<forall>sn. length (created_for sn (new_events w (run_ops E ops w))) \<le> 1)
   \<and> (\<forall>ks \<in> set (created_permits (new_events w (run_ops E ops w))). permits (snd ks) = MaxStorageThreads E)
   \<and> (fst (Login E w) = Returned None \<longrightarrow>
        RequestSemaphoreMap_get E (RequestSemaphoreMap (snd (Login E w))) (DeviceId (cli (snd (Login E w)))) \<noteq> None)
   \<and> run_ops E [OpLogin] w = snd (Login E w)"
proof -
  note k = run_ops_permits [of E w ops, unfolded permits_kept_def]
  have a: "\<forall>sn p. RequestSemaphoreMap_get E (RequestSemaphoreMap w) sn = Some p \<longrightarrow>
       RequestSemaphoreMap_get E (RequestSemaphoreMap (run_ops E ops w)) sn = Some p
       \<and> created_for sn (new_events w (run_ops E ops w)) = []"
  proof (intro allI impI)
    fix sn p assume s: "RequestSemaphoreMap_get E (RequestSemaphoreMap w) sn = Some p"
    from k have "length (created_for sn (new_events w (run_ops E ops w)))
                   \<le> (if RequestSemaphoreMap_get E (RequestSemaphoreMap w) sn = None then 1 else 0)"
      by blast
    with s have "created_for sn (new_events w (run_ops E ops w)) = []" by simp
    moreover from k s have "RequestSemaphoreMap_get E (RequestSemaphoreMap (run_ops E ops w)) sn = Some p"
      by blast
    ultimately show "RequestSemaphoreMap_get E (RequestSemaphoreMap (run_ops E ops w)) sn = Some p
       \<and> created_for sn (new_events w (run_ops E ops w)) = []"
      by simp
  qed
  have b: "\<forall>sn. length (created_for sn (new_events w (run_ops E ops w))) \<le> 1"
  proof
    fix sn
    from k have "length (created_for sn (new_events w (run_ops E ops w)))
                   \<le> (if RequestSemaphoreMap_get E (RequestSemaphoreMap w) sn = None then 1 else 0)"
      by blast
    then show "length (created_for sn (new_events w (run_ops E ops w))) \<le> 1"
      by (simp split: if_splits)
  qed
  have c: "\<forall>ks \<in> set (created_permits (new_events w (run_ops E ops w))). permits (snd ks) = MaxStorageThreads E"
    using k by blast
  have d: "run_ops E [OpLogin] w = snd (Login E w)"
    by (simp add: split_beta split: outcome.splits)
  from a b c d Login_registers [of E w] show ?thesis
    by blast
qed

theorem permits_created_once_witness:
  "RequestSemaphoreMap_get u1_session (RequestSemaphoreMap logged_in) ''SN1'' = Some \<lparr>sem_id = 2, permits = 100\<rparr>
   \<and> RequestSemaphoreMap_get u1_session
        (RequestSemaphoreMap (run_ops u1_session [OpReLogin nobody_else, OpLogin] logged_in)) ''SN1''
        = Some \<lparr>sem_id = 2, permits = 100\<rparr>
   \<and> created_for ''SN1'' (new_events logged_in (run_ops u1_session [OpReLogin nobody_else, OpLogin] logged_in)) = []
   \<and> created_permits (new_events one_url (run_ops u1_session [OpLogin, OpReLogin nobody_else] one_url))
        = [(''SN1'', \<lparr>sem_id = 2, permits = 100\<rparr>)]
   \<and> MaxStorageThreads u1_session = 100
   \<and> fst (Login u1_session one_url) = Returned None
   \<and> RequestSemaphoreMap_get u1_session (RequestSemaphoreMap (snd (Login u1_session one_url)))
        (DeviceId (cli (snd (Login u1_session one_url)))) \<noteq> None"
proof -
  have g: "RequestSemaphoreMap_get u1_session (RequestSemaphoreMap logged_in) ''SN1'' = Some \<lparr>sem_id = 2, permits = 100\<rparr>"
    by (simp add: logged_in_eval) (simp add: u1_session_def example_env_def RequestSemaphoreMap_get_def)
  have ok: "fst (Login u1_session one_url) = Returned None"
    by (simp add: u1_session_def one_url_def logout_ok_def run_defs)
  have m: "MaxStorageThreads u1_session = 100"
    by (simp add: u1_session_def example_env_def)
  have li: "snd (Login u1_session one_url) = logged_in"
    by (simp add: logged_in_def)
  have lo: "fst (Logout u1_session logged_in) = Returned ()"
    and lo2: "created_permits (new_events logged_in (snd (Logout u1_session logged_in))) = []"
    by (simp_all add: logged_in_eval)
       (simp_all add: u1_session_def logout_ok_def run_defs trace_defs)
  have li2: "fst (Login u1_session (snd (Logout u1_session logged_in))) = Returned None"
    and li3: "created_permits (new_events (snd (Logout u1_session logged_in))
                (snd (Login u1_session (snd (Logout u1_session logged_in))))) = []"
    by (simp_all add: logged_in_eval)
       (simp_all add: u1_session_def logout_ok_def run_defs trace_defs)
  have c1: "created_permits (new_events one_url logged_in) = [(''SN1'', \<lparr>sem_id = 2, permits = 100\<rparr>)]"
    by (simp add: logged_in_eval) (simp add: one_url_def example_defs new_events_def)
  have t: "Token (nobody_else (cli logged_in)) \<noteq> []" "Token (cli logged_in) = Token (nobody_else (cli logged_in))"
          "logged_in\<lparr>cli := nobody_else (cli logged_in)\<rparr> = logged_in"
    by (simp_all add: logged_in_eval nobody_else_def)
  have rl: "ReLogin u1_session nobody_else logged_in = Login u1_session (snd (Logout u1_session logged_in))"
    using t lo by (simp add: ReLogin_def Let_def split_beta)
  have e1: "extends one_url logged_in"
    using Login_extends [of one_url u1_session] by (simp add: li)
  have e2: "extends logged_in (snd (Logout u1_session logged_in))"
    by (rule Logout_extends)
  have e3: "extends (snd (Logout u1_session logged_in)) (snd (Login u1_session (snd (Logout u1_session logged_in))))"
    by (rule Login_extends)
  have run: "run_ops u1_session [OpLogin, OpReLogin nobody_else] one_url
               = snd (Login u1_session (snd (Logout u1_session logged_in)))"
    using ok li rl li2 by (simp add: split_beta split: outcome.splits)
  have c2: "created_permits (new_events one_url (run_ops u1_session [OpLogin, OpReLogin nobody_else] one_url))
              = [(''SN1'', \<lparr>sem_id = 2, permits = 100\<rparr>)]"
    unfolding run
    using new_events_trans [OF e1 extends_trans [OF e2 e3]] new_events_trans [OF e2 e3] c1 lo2 li3
    by simp
  from permits_created_once [of u1_session logged_in "[OpReLogin nobody_else, OpLogin]"] g
  have A: "RequestSemaphoreMap_get u1_session
        (RequestSemaphoreMap (run_ops u1_session [OpReLogin nobody_else, OpLogin] logged_in)) ''SN1''
        = Some \<lparr>sem_id = 2, permits = 100\<rparr>"
      "created_for ''SN1'' (new_events logged_in (run_ops u1_session [OpReLogin nobody_else, OpLogin] logged_in)) = []"
    by blast+
  from permits_created_once [of u1_session one_url "[]"] ok
  have B: "RequestSemaphoreMap_get u1_session (RequestSemaphoreMap (snd (Login u1_session one_url)))
        (DeviceId (cli (snd (Login u1_session one_url)))) \<noteq> None"
    by blast
  from g A c2 m ok B show ?thesis by blast
qed

section \<open>Lemmas: Call\<close>

lemma recording_simps [simp]:
  "call_BaseCall (recording C) method url data (s, l) =
     (fst (call_BaseCall C method url data s), (snd (call_BaseCall C method url data s), l @ [IssuedBaseCall method url]))"
  "call_ReLogin (recording C) (s, l) = (fst (call_ReLogin C s), (snd (call_ReLogin C s), l @ [IssuedReLogin]))"
  "call_SetSystemInfo (recording C) (s, l) =
     (fst (call_SetSystemInfo C s), (snd (call_SetSystemInfo C s), l @ [IssuedSetSystemInfo]))"
  by (simp_all add: recording_def split_beta)



section \<open>Call retries once\<close>



section \<open>Lemmas: SafeBaseCall\<close>

lemma safeDoCall_world:
  "snd (safeDoCall E X method url h req w) =
     w\<lparr>trace := trace w @ (if safeDoCall_blocked url (cli w) then []
                            else [Sent h req (http_Do E (trace w) h req)])\<rparr>"
  by (auto simp: safeDoCall_def safeDoCall_blocked_def Let_def)

lemma BaseCall_ignores_flag:
  "fst (BaseCall E m u d (w\<lparr>cli := (cli w)\<lparr>SystemInfoRefreshing := x\<rparr>\<rparr>)) = fst (BaseCall E m u d w)
   \<and> trace (snd (BaseCall E m u d (w\<lparr>cli := (cli w)\<lparr>SystemInfoRefreshing := x\<rparr>\<rparr>)))
       = trace (snd (BaseCall E m u d w))"
  by (simp add: BaseCall_def GetRequest_def GetDeviceSN_def Let_def split: option.splits sum.splits)

section \<open>The order of the permits\<close>

text \<open>
  C8 (as the code has it). In every \<open>RestClient.BaseCall\<close> that reaches the sending
  stage (a client, a request, a client-level permit) the events are, in this order:
  the client-level permit taken, the device-level permit taken, the exchange, the
  device-level permit given back, the client-level permit given back, whatever the
  exchange came to. The device-level permit is the one registered for the device
  serial number, and the one under \<open>UninitializedStorage\<close>, which always exists, when
  none is registered. \<open>SafeBaseCall\<close> takes the client-level permit if the client has
  one, then the device-level permit if one is registered, and gives back exactly
  those, in reverse order, after \<open>safeDoCall\<close>, which adds at most the exchange.
\<close>

theorem BaseCall_permit_order:
  "(Client (cli w) = Some h \<and> GetRequest E (cli w) method url data = Inr req \<and> RequestSemaphore (cli w) = Some s \<longrightarrow>
      (let d = (case RequestSemaphoreMap_get E (RequestSemaphoreMap w) (DeviceId (cli w)) of
                  Some p \<Rightarrow> p
                | None \<Rightarrow> uninitialized (RequestSemaphoreMap w));
           out = http_Do E (trace w @ [Acquire s, Acquire d]) h req
       in new_events w (snd (BaseCall E method url data w))
            = [Acquire s, Acquire d, Sent h req out, Release d, Release s]
          \<and> fst (BaseCall E method url data w) = outcome_result E out))
   \<and> RequestSemaphoreMap_get E R (UninitializedStorage E) = Some (uninitialized R)
   \<and> (Client (cli ow) = Some h' \<and> oc_GetRequest X (cli ow) method' url' data' = (Some req', None) \<longrightarrow>
      (let own = (case RequestSemaphore (cli ow) of None \<Rightarrow> [] | Some s \<Rightarrow> [s]);
           dev = (case RequestSemaphoreMap_get E (RequestSemaphoreMap ow) (oc_GetDeviceSN X (cli ow)) of
                    None \<Rightarrow> [] | Some p \<Rightarrow> [p]);
           w1 = ow\<lparr>trace := trace ow @ map Acquire (own @ dev)\<rparr>;
           body = new_events w1 (snd (safeDoCall E X method' url' h' req' w1))
       in new_events ow (snd (SafeBaseCall E X method' url' data' ow))
            = map Acquire (own @ dev) @ body @ map Release (dev @ own)
          \<and> (body = [] \<or> body = [Sent h' req' (http_Do E (trace w1) h' req')])))"
proof -
  have a: "Client (cli w) = Some h \<and> GetRequest E (cli w) method url data = Inr req \<and> RequestSemaphore (cli w) = Some s \<longrightarrow>
      (let d = (case RequestSemaphoreMap_get E (RequestSemaphoreMap w) (DeviceId (cli w)) of
                  Some p \<Rightarrow> p
                | None \<Rightarrow> uninitialized (RequestSemaphoreMap w));
           out = http_Do E (trace w @ [Acquire s, Acquire d]) h req
       in new_events w (snd (BaseCall E method url data w))
            = [Acquire s, Acquire d, Sent h req out, Release d, Release s]
          \<and> fst (BaseCall E method url data w) = outcome_result E out)"
    by (simp add: BaseCall_def Let_def new_events_def device_permit_def GetDeviceSN_def)
  have b: "RequestSemaphoreMap_get E R (UninitializedStorage E) = Some (uninitialized R)"
    by (simp add: RequestSemaphoreMap_get_def)
  have c: "Client (cli ow) = Some h' \<and> oc_GetRequest X (cli ow) method' url' data' = (Some req', None) \<longrightarrow>
      (let own = (case RequestSemaphore (cli ow) of None \<Rightarrow> [] | Some s \<Rightarrow> [s]);
           dev = (case RequestSemaphoreMap_get E (RequestSemaphoreMap ow) (oc_GetDeviceSN X (cli ow)) of
                    None \<Rightarrow> [] | Some p \<Rightarrow> [p]);
           w1 = ow\<lparr>trace := trace ow @ map Acquire (own @ dev)\<rparr>;
           body = new_events w1 (snd (safeDoCall E X method' url' h' req' w1))
       in new_events ow (snd (SafeBaseCall E X method' url' data' ow))
            = map Acquire (own @ dev) @ body @ map Release (dev @ own)
          \<and> (body = [] \<or> body = [Sent h' req' (http_Do E (trace w1) h' req')]))"
    by (simp add: SafeBaseCall_def Let_def split_beta safeDoCall_world new_events_def)
  from a b c show ?thesis by blast
qed

lemmas oceanstor_defs =
  example_oceanstor_methods_def example_oceanstor_client_def example_oceanstor_world_def
  fresh_oceanstor_world_def lun_answers_def answer_ok_def SafeBaseCall_def safeDoCall_def
  systemInfoRefreshing_def safe_outcome_result_def

theorem BaseCall_permit_order_witness:
  "new_events logged_in (snd (BaseCall lun_answers ''GET'' ''/lun'' None logged_in))
     = [Acquire \<lparr>sem_id = 0, permits = 30\<rparr>, Acquire \<lparr>sem_id = 2, permits = 100\<rparr>,
        Sent 7 \<lparr>Method = ''GET'', URL = ''u1/deviceManager/rest/SN1/lun'',
                 Header = [(''iBaseToken'', ''T1''), (''Content-Type'', ''application/json''),
                           (''Connection'', ''keep-alive'')],
                 Body = None\<rparr> (Decodes answer_ok),
        Release \<lparr>sem_id = 2, permits = 100\<rparr>, Release \<lparr>sem_id = 0, permits = 30\<rparr>]
   \<and> new_events one_url (snd (BaseCall nobody_answers ''POST'' ''/xx/sessions'' None one_url))
     = [Acquire \<lparr>sem_id = 0, permits = 30\<rparr>, Acquire \<lparr>sem_id = 1, permits = 100\<rparr>,
        Sent 7 \<lparr>Method = ''POST'', URL = ''/xx/sessions'',
                 Header = [(''Content-Type'', ''application/json''), (''Connection'', ''keep-alive'')],
                 Body = None\<rparr> (DoFails ''connection refused''),
        Release \<lparr>sem_id = 1, permits = 100\<rparr>, Release \<lparr>sem_id = 0, permits = 30\<rparr>]
   \<and> fst (BaseCall nobody_answers ''POST'' ''/xx/sessions'' None one_url) = (Response_zero, Some ''unconnected'')
   \<and> new_events (example_oceanstor_world [] [] 0)
        (snd (SafeBaseCall lun_answers example_oceanstor_methods ''GET'' ''/lun'' None (example_oceanstor_world [] [] 0)))
     = [Acquire \<lparr>sem_id = 0, permits = 30\<rparr>,
        Sent 7 \<lparr>Method = ''GET'', URL = ''u1/deviceManager/rest/SN1/lun'',
                 Header = [(''iBaseToken'', ''T1'')], Body = None\<rparr> (Decodes answer_ok),
        Release \<lparr>sem_id = 0, permits = 30\<rparr>]"
proof -
  let ?R1 = "\<lparr>Method = ''GET'', URL = ''u1/deviceManager/rest/SN1/lun'',
                 Header = [(''iBaseToken'', ''T1''), (''Content-Type'', ''application/json''),
                           (''Connection'', ''keep-alive'')],
                 Body = None\<rparr>"
  let ?R2 = "\<lparr>Method = ''POST'', URL = ''/xx/sessions'',
                 Header = [(''Content-Type'', ''application/json''), (''Connection'', ''keep-alive'')],
                 Body = None\<rparr>"
  let ?R3 = "\<lparr>Method = ''GET'', URL = ''u1/deviceManager/rest/SN1/lun'',
                 Header = [(''iBaseToken'', ''T1'')], Body = None\<rparr>"
  let ?ow = "example_oceanstor_world [] [] 0"
  have h1: "Client (cli logged_in) = Some 7 \<and> GetRequest lun_answers (cli logged_in) ''GET'' ''/lun'' None = Inr ?R1
            \<and> RequestSemaphore (cli logged_in) = Some \<lparr>sem_id = 0, permits = 30\<rparr>"
    by (simp add: logged_in_eval) (simp add: lun_answers_def example_env_def GetRequest_def Header_Set_def)
  have h2: "Client (cli one_url) = Some 7 \<and> GetRequest nobody_answers (cli one_url) ''POST'' ''/xx/sessions'' None = Inr ?R2
            \<and> RequestSemaphore (cli one_url) = Some \<lparr>sem_id = 0, permits = 30\<rparr>"
    by (simp add: one_url_def nobody_answers_def example_defs GetRequest_def Header_Set_def)
  have h3: "Client (cli ?ow) = Some 7
            \<and> oc_GetRequest example_oceanstor_methods (cli ?ow) ''GET'' ''/lun'' None = (Some ?R3, None)"
    by (simp add: oceanstor_defs)
  have d1: "RequestSemaphoreMap_get lun_answers (RequestSemaphoreMap logged_in) (DeviceId (cli logged_in))
              = Some \<lparr>sem_id = 2, permits = 100\<rparr>"
    by (simp add: logged_in_eval) (simp add: lun_answers_def example_env_def RequestSemaphoreMap_get_def)
  have o1: "http_Do lun_answers t 7 ?R1 = Decodes answer_ok" for t
    by (simp add: lun_answers_def example_env_def net_by_url_def)
  note X1 = BaseCall_permit_order [of logged_in 7 lun_answers "''GET''" "''/lun''" None ?R1
         "\<lparr>sem_id = 0, permits = 30\<rparr>" "RequestSemaphoreMap logged_in" ?ow 7 example_oceanstor_methods
         "''GET''" "''/lun''" None ?R3, THEN conjunct1, THEN mp, OF h1]
  have a: "new_events logged_in (snd (BaseCall lun_answers ''GET'' ''/lun'' None logged_in))
     = [Acquire \<lparr>sem_id = 0, permits = 30\<rparr>, Acquire \<lparr>sem_id = 2, permits = 100\<rparr>,
        Sent 7 ?R1 (Decodes answer_ok),
        Release \<lparr>sem_id = 2, permits = 100\<rparr>, Release \<lparr>sem_id = 0, permits = 30\<rparr>]"
    using X1 by (simp add: Let_def d1 o1)
  have d2: "RequestSemaphoreMap_get nobody_answers (RequestSemaphoreMap one_url) (DeviceId (cli one_url)) = None"
           "uninitialized (RequestSemaphoreMap one_url) = \<lparr>sem_id = 1, permits = 100\<rparr>"
    by (simp_all add: one_url_def nobody_answers_def example_defs RequestSemaphoreMap_get_def)
  have o2: "http_Do nobody_answers t 7 ?R2 = DoFails ''connection refused''"
           "Unconnected nobody_answers = ''unconnected''" for t
    by (simp_all add: nobody_answers_def example_env_def net_by_url_def)
  note X2 = BaseCall_permit_order [of one_url 7 nobody_answers "''POST''" "''/xx/sessions''" None ?R2
         "\<lparr>sem_id = 0, permits = 30\<rparr>" "RequestSemaphoreMap one_url" ?ow 7 example_oceanstor_methods
         "''GET''" "''/lun''" None ?R3, THEN conjunct1, THEN mp, OF h2]
  have b: "new_events one_url (snd (BaseCall nobody_answers ''POST'' ''/xx/sessions'' None one_url))
     = [Acquire \<lparr>sem_id = 0, permits = 30\<rparr>, Acquire \<lparr>sem_id = 1, permits = 100\<rparr>,
        Sent 7 ?R2 (DoFails ''connection refused''),
        Release \<lparr>sem_id = 1, permits = 100\<rparr>, Release \<lparr>sem_id = 0, permits = 30\<rparr>]"
    "fst (BaseCall nobody_answers ''POST'' ''/xx/sessions'' None one_url) = (Response_zero, Some ''unconnected'')"
    using X2 by (simp_all add: Let_def d2 o2 outcome_result_def)
  let ?w1 = "?ow\<lparr>trace := trace ?ow @ [Acquire \<lparr>sem_id = 0, permits = 30\<rparr>]\<rparr>"
  have d3: "RequestSemaphore (cli ?ow) = Some \<lparr>sem_id = 0, permits = 30\<rparr>"
           "RequestSemaphoreMap_get lun_answers (RequestSemaphoreMap ?ow) (oc_GetDeviceSN example_oceanstor_methods (cli ?ow)) = None"
    by (simp_all add: oceanstor_defs example_env_def RequestSemaphoreMap_get_def)
  have o3: "new_events ?w1 (snd (safeDoCall lun_answers example_oceanstor_methods ''GET'' ''/lun'' 7 ?R3 ?w1))
              = [Sent 7 ?R3 (Decodes answer_ok)]"
    by (simp add: oceanstor_defs example_env_def net_by_url_def new_events_def Let_def)
  note X3 = BaseCall_permit_order [of logged_in 7 lun_answers "''GET''" "''/lun''" None ?R1
         "\<lparr>sem_id = 0, permits = 30\<rparr>" "RequestSemaphoreMap logged_in" ?ow 7 example_oceanstor_methods
         "''GET''" "''/lun''" None ?R3, THEN conjunct2, THEN conjunct2, THEN mp, OF h3]
  have c: "new_events ?ow (snd (SafeBaseCall lun_answers example_oceanstor_methods ''GET'' ''/lun'' None ?ow))
     = [Acquire \<lparr>sem_id = 0, permits = 30\<rparr>, Sent 7 ?R3 (Decodes answer_ok), Release \<lparr>sem_id = 0, permits = 30\<rparr>]"
    using X3 by (simp add: Let_def d3 o3)
  from a b c show ?thesis by simp
qed

theorem SafeBaseCall_no_default_permit_counterexample:
  "oc_GetDeviceSN example_oceanstor_methods (cli fresh_oceanstor_world) = []
   \<and> RequestSemaphoreMap_get u1_answers (RequestSemaphoreMap fresh_oceanstor_world) [] = None
   \<and> new_events fresh_oceanstor_world
        (snd (SafeBaseCall u1_answers example_oceanstor_methods ''POST'' ''/xx/sessions'' None fresh_oceanstor_world))
     = [Acquire \<lparr>sem_id = 0, permits = 30\<rparr>,
        Sent 7 \<lparr>Method = ''POST'', URL = ''u1/deviceManager/rest/xx/sessions'', Header = [], Body = None\<rparr> login_ok,
        Release \<lparr>sem_id = 0, permits = 30\<rparr>]"
  by (simp add: oceanstor_defs u1_answers_def example_env_def net_by_url_def RequestSemaphoreMap_get_def
        Let_def new_events_def)

section \<open>The refresh flag\<close>

text \<open>
  C6 (as the code has it). In \<open>safeDoCall\<close> the refresh flag is looked at only for a
  path other than the login and logout paths and only when a logical-interface
  identity has been recorded (\<open>CurrentLifWwn\<close> is not empty). Then, while
  \<open>SystemInfoRefreshing\<close> is 1, the call fails with the error \<open>querying lif and system
  information... Please wait\<close> and no request is sent: a \<open>SafeBaseCall\<close> adds no
  exchange to the trace and returns an error, which is that error whenever the call
  gets as far as \<open>safeDoCall\<close>. For the login and logout paths, and when no identity has
  been recorded, \<open>safeDoCall\<close> sends the request whatever the flag is. \<open>RestClient.BaseCall\<close>
  does not look at the flag at all.
\<close>

theorem safeDoCall_refreshing:
  "(url \<noteq> ''/xx/sessions'' \<and> url \<noteq> ''/sessions'' \<and> CurrentLifWwn (cli w) \<noteq> []
      \<and> SystemInfoRefreshing (cli w) = 1 \<longrightarrow>
      safeDoCall E X method url h req w
        = ((Response_zero, Some ''querying lif and system information... Please wait''), w)
      \<and> sent_requests (new_events w (snd (SafeBaseCall E X method url data w))) = []
      \<and> snd (fst (SafeBaseCall E X method url data w)) \<noteq> None
      \<and> (Client (cli w) = Some h \<and> oc_GetRequest X (cli w) method url data = (Some req, None) \<longrightarrow>
           fst (SafeBaseCall E X method url data w)
             = (Response_zero, Some ''querying lif and system information... Please wait'')))
   \<and> (url = ''/xx/sessions'' \<or> url = ''/sessions'' \<or> CurrentLifWwn (cli w) = [] \<longrightarrow>
        new_events w (snd (safeDoCall E X method url h req w)) = [Sent h req (http_Do E (trace w) h req)])
   \<and> fst (BaseCall E method url data (wb\<lparr>cli := (cli wb)\<lparr>SystemInfoRefreshing := x\<rparr>\<rparr>))
        = fst (BaseCall E method url data wb)
   \<and> trace (snd (BaseCall E method url data (wb\<lparr>cli := (cli wb)\<lparr>SystemInfoRefreshing := x\<rparr>\<rparr>)))
        = trace (snd (BaseCall E method url data wb))"
proof -
  have blocked: "url \<noteq> ''/xx/sessions'' \<and> url \<noteq> ''/sessions'' \<and> CurrentLifWwn (cli w) \<noteq> []
      \<and> SystemInfoRefreshing (cli w) = 1 \<longrightarrow>
      safeDoCall E X method url h req w
        = ((Response_zero, Some ''querying lif and system information... Please wait''), w)
      \<and> sent_requests (new_events w (snd (SafeBaseCall E X method url data w))) = []
      \<and> snd (fst (SafeBaseCall E X method url data w)) \<noteq> None
      \<and> (Client (cli w) = Some h \<and> oc_GetRequest X (cli w) method url data = (Some req, None) \<longrightarrow>
           fst (SafeBaseCall E X method url data w)
             = (Response_zero, Some ''querying lif and system information... Please wait''))"
    by (auto simp: safeDoCall_def SafeBaseCall_def systemInfoRefreshing_def Let_def split_beta new_events_def
                   sent_requests_def
             split: option.splits prod.splits)
  have open_paths: "url = ''/xx/sessions'' \<or> url = ''/sessions'' \<or> CurrentLifWwn (cli w) = [] \<longrightarrow>
        new_events w (snd (safeDoCall E X method url h req w)) = [Sent h req (http_Do E (trace w) h req)]"
    by (auto simp: safeDoCall_def Let_def new_events_def)
  from blocked open_paths BaseCall_ignores_flag [where E = E and m = "method" and u = "url" and d = data and w = wb and x = x] show ?thesis
    by blast
qed

theorem safeDoCall_refreshing_witness:
  "fst (SafeBaseCall lun_answers example_oceanstor_methods ''GET'' ''/lun'' None
          (example_oceanstor_world ''lifA'' ''lifA'' 1))
     = (Response_zero, Some ''querying lif and system information... Please wait'')
   \<and> sent_requests (new_events (example_oceanstor_world ''lifA'' ''lifA'' 1)
        (snd (SafeBaseCall lun_answers example_oceanstor_methods ''GET'' ''/lun'' None
               (example_oceanstor_world ''lifA'' ''lifA'' 1)))) = []
   \<and> new_events (example_oceanstor_world [] [] 1)
        (snd (safeDoCall lun_answers example_oceanstor_methods ''GET'' ''/lun'' 7
               \<lparr>Method = ''GET'', URL = ''u1/deviceManager/rest/SN1/lun'', Header = [(''iBaseToken'', ''T1'')],
                 Body = None\<rparr> (example_oceanstor_world [] [] 1)))
     = [Sent 7 \<lparr>Method = ''GET'', URL = ''u1/deviceManager/rest/SN1/lun'', Header = [(''iBaseToken'', ''T1'')],
                 Body = None\<rparr> (Decodes answer_ok)]"
proof -
  let ?R = "\<lparr>Method = ''GET'', URL = ''u1/deviceManager/rest/SN1/lun'', Header = [(''iBaseToken'', ''T1'')],
                 Body = None\<rparr>"
  let ?w1 = "example_oceanstor_world ''lifA'' ''lifA'' 1"
  let ?w0 = "example_oceanstor_world [] [] 1"
  have h1: "''/lun'' \<noteq> ''/xx/sessions'' \<and> ''/lun'' \<noteq> ''/sessions'' \<and> CurrentLifWwn (cli ?w1) \<noteq> []
            \<and> SystemInfoRefreshing (cli ?w1) = 1"
    and h2: "Client (cli ?w1) = Some 7
            \<and> oc_GetRequest example_oceanstor_methods (cli ?w1) ''GET'' ''/lun'' None = (Some ?R, None)"
    and h3: "CurrentLifWwn (cli ?w0) = []"
    by (simp_all add: oceanstor_defs)
  from safeDoCall_refreshing [of "''/lun''" ?w1 lun_answers example_oceanstor_methods "''GET''" 7 ?R None] h1 h2
  have a: "fst (SafeBaseCall lun_answers example_oceanstor_methods ''GET'' ''/lun'' None ?w1)
     = (Response_zero, Some ''querying lif and system information... Please wait'')"
    "sent_requests (new_events ?w1 (snd (SafeBaseCall lun_answers example_oceanstor_methods ''GET'' ''/lun'' None ?w1))) = []"
    by blast+
  from safeDoCall_refreshing [of "''/lun''" ?w0 lun_answers example_oceanstor_methods "''GET''" 7 ?R None] h3
  have "new_events ?w0 (snd (safeDoCall lun_answers example_oceanstor_methods ''GET'' ''/lun'' 7 ?R ?w0))
          = [Sent 7 ?R (http_Do lun_answers (trace ?w0) 7 ?R)]"
    by blast
  then have b: "new_events ?w0 (snd (safeDoCall lun_answers example_oceanstor_methods ''GET'' ''/lun'' 7 ?R ?w0))
          = [Sent 7 ?R (Decodes answer_ok)]"
    by (simp add: lun_answers_def example_env_def net_by_url_def)
  from a b show ?thesis by simp
qed

theorem refreshing_without_lif_sends_counterexample:
  "SystemInfoRefreshing (cli (example_oceanstor_world [] [] 1)) = 1
   \<and> systemInfoRefreshing (cli (example_oceanstor_world [] [] 1))
   \<and> fst (SafeBaseCall lun_answers example_oceanstor_methods ''GET'' ''/lun'' None (example_oceanstor_world [] [] 1))
       = (answer_ok, None)
   \<and> map URL (sent_requests (new_events (example_oceanstor_world [] [] 1)
        (snd (SafeBaseCall lun_answers example_oceanstor_methods ''GET'' ''/lun'' None
               (example_oceanstor_world [] [] 1)))))
       = [''u1/deviceManager/rest/SN1/lun'']"
  by (simp add: oceanstor_defs example_env_def net_by_url_def RequestSemaphoreMap_get_def
        Let_def new_events_def)

end
